theory Spec2Isabelle
  imports Main "HOL-Library.Word"
begin

unbundle bit_operations_syntax

section \<open>CAN transfer serialization of pyuavcan\<close>

text \<open>
  The development embeds \<^verbatim>\<open>serialize_transfer\<close> of
  \<^verbatim>\<open>pyuavcan/transport/can/_session/_transfer_sender.py\<close> together with the helper
  \<^verbatim>\<open>mkf\<close> of its unit test. The collaborators the function calls
  (\<^verbatim>\<open>pyuavcan.util.refragment\<close>, \<^verbatim>\<open>pyuavcan.util.mark_last\<close>,
  \<^verbatim>\<open>pyuavcan.util.hash.CRC16CCITT\<close>, \<^verbatim>\<open>_frame.UAVCANFrame\<close>) and the
  reassembler live in other modules; they are modelled from the specification text and
  checked against the byte vectors of the unit test.
\<close>

subsection \<open>Data model\<close>

type_synonym byte = "8 word"

text \<open>
  Python exceptions that the modelled code can raise. Both the guard on
  \<^verbatim>\<open>max_frame_payload_bytes\<close> and a failing tuple unpacking raise
  \<^verbatim>\<open>ValueError\<close>; they are kept apart by constructor. \<open>NoLegalLength\<close> stands for
  the padding calculator being asked for a length beyond the DLC table, where the
  specification leaves the behaviour undefined.
\<close>

datatype error =
    ValueError_invalid_max_payload
  | ValueError_unpack
  | ValueError_byte_range
  | AssertionError
  | NoLegalLength

record UAVCANFrame =
  frame_identifier :: nat
  padded_payload :: "byte list"
  transfer_id :: nat
  start_of_transfer :: bool
  end_of_transfer :: bool
  toggle_bit :: bool
  loopback :: bool

datatype FrameFormat = BASE | EXTENDED

record DataFrame =
  df_identifier :: nat
  df_data :: "byte list"
  df_format :: FrameFormat
  df_loopback :: bool

text \<open>\<^verbatim>\<open>_PADDING_PATTERN = b'\x55'\<close>\<close>

definition PADDING_PATTERN :: byte where
  "PADDING_PATTERN = 0x55"

text \<open>
  Modelled from the spec: \<^verbatim>\<open>_frame.TRANSFER_CRC_LENGTH_BYTES\<close> is declared in a module
  that is not among the sources; section 4.2 gives the CRC length as 2.
\<close>

definition TRANSFER_CRC_LENGTH_BYTES :: nat where
  "TRANSFER_CRC_LENGTH_BYTES = 2"

subsection \<open>DLC table and padding calculator\<close>

text \<open>
  Modelled from the spec: the DLC table of section 2 (0 to 8 exact, then 12, 16, 20, 24,
  32, 48, 64), in ascending order.
\<close>

definition LENGTH_TO_DLC :: "nat list" where
  "LENGTH_TO_DLC = [0, 1, 2, 3, 4, 5, 6, 7, 8, 12, 16, 20, 24, 32, 48, 64]"

definition dlc_legal :: "nat \<Rightarrow> bool" where
  "dlc_legal n = (n \<in> set LENGTH_TO_DLC)"

text \<open>
  Modelled from the spec: the smallest DLC-legal length that is at least the given length
  (section 2); there is none beyond 64, where section 4.1 leaves the behaviour undefined.
\<close>

definition dlc_ceiling :: "nat \<Rightarrow> nat option" where
  "dlc_ceiling n = find (\<lambda>x. n \<le> x) LENGTH_TO_DLC"

text \<open>
  Modelled from the spec: \<^verbatim>\<open>_frame.UAVCANFrame.get_required_padding\<close> is not among the
  sources. The source calls it with the data length alone, without the bound
  \<^verbatim>\<open>max_frame_payload_bytes\<close>. By section 3 and section 6 the length that has to be
  DLC-legal is that of the frame payload on the wire, whose final byte is the tail byte, so
  the padding rounds \<open>data_length + 1\<close> up to the next DLC-legal length. This is the
  reading that the unit test of the source file fixes: 5 data bytes need no padding, 60
  data bytes need 3, and 10 data bytes need 1.
\<close>

definition get_required_padding :: "nat \<Rightarrow> nat option" where
  "get_required_padding data_length =
     (case dlc_ceiling (data_length + 1) of
        None \<Rightarrow> None
      | Some supremum \<Rightarrow> Some (supremum - (data_length + 1)))"

subsection \<open>CRC engine\<close>

text \<open>
  Modelled from the spec: \<^verbatim>\<open>pyuavcan.util.hash.CRC16CCITT\<close> is not among the sources.
  Section 6 fixes CRC-16/CCITT-FALSE: polynomial 0x1021, initial value 0xFFFF, no
  reflection of input or output, most significant bit first. \<open>crc_add\<close> is the method
  \<^verbatim>\<open>add\<close>, the running value being passed explicitly.
\<close>

definition CRC_INITIAL :: "16 word" where
  "CRC_INITIAL = 0xFFFF"

definition crc_shift :: "16 word \<Rightarrow> 16 word" where
  "crc_shift v = (if bit v 15 then push_bit 1 v XOR 0x1021 else push_bit 1 v)"

definition crc_add_byte :: "16 word \<Rightarrow> byte \<Rightarrow> 16 word" where
  "crc_add_byte v x = (crc_shift ^^ 8) (v XOR push_bit 8 (ucast x))"

definition crc_add :: "16 word \<Rightarrow> byte list \<Rightarrow> 16 word" where
  "crc_add v data = foldl crc_add_byte v data"

text \<open>\<^verbatim>\<open>bytes([crc.value >> 8, crc.value & 0xFF])\<close>\<close>

definition crc_bytes :: "16 word \<Rightarrow> byte list" where
  "crc_bytes v = [ucast (drop_bit 8 v), ucast (v AND 0xFF)]"

subsection \<open>Refragmenter and last-element marker\<close>

text \<open>
  Modelled from the spec: \<^verbatim>\<open>pyuavcan.util.refragment\<close> is not among the sources.
  Section 4.3: the bytes of the input buffers, in order, cut into chunks of exactly
  \<open>n\<close> bytes, the final chunk holding the remainder; an exact multiple ends with a full
  chunk and never with an empty one, so no chunk is ever empty and an empty input gives
  no chunk. The chunk size is at least 1 wherever \<^verbatim>\<open>serialize_transfer\<close> calls it;
  the case \<open>n = 0\<close> is not reached.
\<close>

function chunks :: "nat \<Rightarrow> 'a list \<Rightarrow> 'a list list" where
  "chunks n xs = (if n = 0 \<or> xs = [] then [] else take n xs # chunks n (drop n xs))"
  by pat_completeness auto
termination
  by (relation "measure (\<lambda>(n, xs). length xs)") auto

declare chunks.simps [simp del]

definition refragment :: "'a list list \<Rightarrow> nat \<Rightarrow> 'a list list" where
  "refragment input_fragments output_fragment_size =
     chunks output_fragment_size (concat input_fragments)"

text \<open>
  Modelled from the spec: \<^verbatim>\<open>pyuavcan.util.mark_last\<close> is not among the sources. It
  pairs every element with the flag "is the last one" (section 4.2, \<open>EOT = chunk is last\<close>).
\<close>

fun mark_last :: "'a list \<Rightarrow> (bool \<times> 'a) list" where
  "mark_last [] = []"
| "mark_last [x] = [(True, x)]"
| "mark_last (x # y # ys) = (False, x) # mark_last (y # ys)"

subsection \<open>The serializer\<close>

text \<open>
  \<^verbatim>\<open>serialize_transfer\<close> is a generator. Every exception of its body is raised before
  the first \<^verbatim>\<open>yield\<close>: the guard, the padding computation and the tuple unpacking of
  the single-frame path, and the padding computation of the multi-frame path. So the
  result is either an error with no frame produced, or the complete list of frames.
  The transfer identifier and the CAN identifier are non-negative.
\<close>

definition single_frame :: "nat \<Rightarrow> nat \<Rightarrow> byte list \<Rightarrow> bool \<Rightarrow> UAVCANFrame" where
  "single_frame compiled_identifier tid payload lb =
     \<lparr>frame_identifier = compiled_identifier, padded_payload = payload, transfer_id = tid,
      start_of_transfer = True, end_of_transfer = True, toggle_bit = True, loopback = lb\<rparr>"

definition emit_frame :: "nat \<Rightarrow> nat \<Rightarrow> bool \<Rightarrow> nat \<times> bool \<times> byte list \<Rightarrow> UAVCANFrame" where
  "emit_frame compiled_identifier tid lb = (\<lambda>(index, last, frag).
     \<lparr>frame_identifier = compiled_identifier, padded_payload = frag, transfer_id = tid,
      start_of_transfer = (index = 0), end_of_transfer = last,
      toggle_bit = (index mod 2 = 0), loopback = lb\<rparr>)"

text \<open>The padding of the multi-frame path (lines 42 to 47 of the source).\<close>

definition multi_frame_padding :: "nat \<Rightarrow> nat \<Rightarrow> byte list option" where
  "multi_frame_padding payload_length max_frame_payload_bytes =
     (let last_frame_payload_length = payload_length mod max_frame_payload_bytes in
      if last_frame_payload_length + TRANSFER_CRC_LENGTH_BYTES \<ge> max_frame_payload_bytes
      then Some []
      else
        (let last_frame_data_length = last_frame_payload_length + TRANSFER_CRC_LENGTH_BYTES in
         case get_required_padding last_frame_data_length of
           None \<Rightarrow> None
         | Some k \<Rightarrow> Some (replicate k PADDING_PATTERN)))"

definition serialize_transfer ::
  "nat \<Rightarrow> nat \<Rightarrow> byte list list \<Rightarrow> int \<Rightarrow> bool \<Rightarrow> error + UAVCANFrame list" where
  "serialize_transfer compiled_identifier tid fragmented_payload max_frame_payload_bytes lb =
     (if max_frame_payload_bytes < 1 then Inl ValueError_invalid_max_payload
      else
        let payload_length = sum_list (map length fragmented_payload) in
        if int payload_length \<le> max_frame_payload_bytes then
          (case get_required_padding payload_length of
             None \<Rightarrow> Inl NoLegalLength
           | Some padding_length \<Rightarrow>
               (case refragment (fragmented_payload @ [replicate padding_length PADDING_PATTERN])
                       (nat max_frame_payload_bytes) of
                  [payload] \<Rightarrow>
                    if max_frame_payload_bytes \<ge> int (length payload)
                       \<and> length payload \<ge> payload_length
                    then Inr [single_frame compiled_identifier tid payload lb]
                    else Inl AssertionError
                | _ \<Rightarrow> Inl ValueError_unpack))
        else
          (case multi_frame_padding payload_length (nat max_frame_payload_bytes) of
             None \<Rightarrow> Inl NoLegalLength
           | Some padding \<Rightarrow>
               (let crc = crc_add (foldl crc_add CRC_INITIAL fragmented_payload) padding;
                    trailing_bytes = padding @ crc_bytes crc;
                    refragmented = refragment (fragmented_payload @ [trailing_bytes])
                                     (nat max_frame_payload_bytes)
                in Inr (map (emit_frame compiled_identifier tid lb)
                          (enumerate 0 (mark_last refragmented))))))"

subsection \<open>Compiled frames and the test helper\<close>

text \<open>
  \<^verbatim>\<open>mkf\<close> of the unit test: the tail byte is the given transfer identifier with bit 7
  set for start of transfer, bit 6 for end of transfer and bit 5 for the toggle;
  \<^verbatim>\<open>bytearray.append\<close> raises \<^verbatim>\<open>ValueError\<close> for a value outside 0 to 255.
\<close>

definition mkf_tail :: "nat \<Rightarrow> bool \<Rightarrow> bool \<Rightarrow> bool \<Rightarrow> nat" where
  "mkf_tail tid sot eot tgl =
     (let tail = tid;
          tail = (if sot then tail OR push_bit 7 1 else tail);
          tail = (if eot then tail OR push_bit 6 1 else tail);
          tail = (if tgl then tail OR push_bit 5 1 else tail)
      in tail)"

definition mkf ::
  "nat \<Rightarrow> byte list \<Rightarrow> nat \<Rightarrow> bool \<Rightarrow> bool \<Rightarrow> bool \<Rightarrow> bool \<Rightarrow> error + DataFrame" where
  "mkf ident data tid sot eot tgl lb =
     (let tail = mkf_tail tid sot eot tgl in
      if tail < 256
      then Inr \<lparr>df_identifier = ident, df_data = data @ [of_nat tail],
                df_format = EXTENDED, df_loopback = lb\<rparr>
      else Inl ValueError_byte_range)"

text \<open>
  Modelled from the spec: \<^verbatim>\<open>_frame.UAVCANFrame.compile\<close> and
  \<^verbatim>\<open>_frame.TRANSFER_ID_MODULO\<close> are not among the sources. Section 6: the tail byte is
  the last byte of the frame data, bit 7 start of transfer, bit 6 end of transfer, bit 5
  toggle, bits 4 to 0 the transfer identifier truncated modulo 32. Frames go out in the
  extended format, as the unit test expects.
\<close>

definition TRANSFER_ID_MODULO :: nat where
  "TRANSFER_ID_MODULO = 32"

definition compile :: "UAVCANFrame \<Rightarrow> DataFrame" where
  "compile f =
     (let tail = mkf_tail (transfer_id f mod TRANSFER_ID_MODULO)
                   (start_of_transfer f) (end_of_transfer f) (toggle_bit f)
      in \<lparr>df_identifier = frame_identifier f, df_data = padded_payload f @ [of_nat tail],
          df_format = EXTENDED, df_loopback = loopback f\<rparr>)"

text \<open>\<^verbatim>\<open>run\<close> of the unit test: serialize, then compile every frame.\<close>

definition run :: "nat \<Rightarrow> nat \<Rightarrow> byte list list \<Rightarrow> int \<Rightarrow> bool \<Rightarrow> error + DataFrame list" where
  "run compiled_identifier tid fragmented_payload max_frame_payload_bytes lb =
     (case serialize_transfer compiled_identifier tid fragmented_payload
             max_frame_payload_bytes lb of
        Inl e \<Rightarrow> Inl e
      | Inr frames \<Rightarrow> Inr (map compile frames))"

subsection \<open>The reassembler\<close>

text \<open>
  Modelled from the spec: the transfer reassembler is not among the sources. Section 4.4
  gives it as a state machine per reception session, fed one frame at a time. The states
  \<open>DELIVERED\<close> and \<open>DISCARDED\<close> are left at once for \<open>IDLE\<close>, so a step returns the
  next state together with what the frame caused: nothing, a delivered payload, or a
  dropped reception with the error of section 7. An accumulated buffer too short to hold
  the two CRC bytes cannot verify and counts as a CRC mismatch.
\<close>

datatype reception_error =
    ToggleViolation
  | TransferIdMismatch
  | CrcMismatch
  | OrphanContinuation

datatype reception =
    IDLE
  | ACCUMULATING (active_transfer_id: nat) (accumulated_payload: "byte list")
      (expected_toggle: bool)

datatype outcome =
    NoOutcome
  | Delivered "byte list"
  | Dropped reception_error

definition complete_multi_frame :: "byte list \<Rightarrow> outcome" where
  "complete_multi_frame buffer =
     (if length buffer < TRANSFER_CRC_LENGTH_BYTES then Dropped CrcMismatch
      else
        let body = take (length buffer - TRANSFER_CRC_LENGTH_BYTES) buffer;
            transmitted = drop (length buffer - TRANSFER_CRC_LENGTH_BYTES) buffer
        in if crc_bytes (crc_add CRC_INITIAL body) = transmitted
           then Delivered body
           else Dropped CrcMismatch)"

fun feed :: "reception \<Rightarrow> UAVCANFrame \<Rightarrow> reception \<times> outcome" where
  "feed st f =
     (if start_of_transfer f then
        (if end_of_transfer f then (IDLE, Delivered (padded_payload f))
         else (ACCUMULATING (transfer_id f) (padded_payload f) (\<not> toggle_bit f), NoOutcome))
      else
        (case st of
           IDLE \<Rightarrow> (IDLE, Dropped OrphanContinuation)
         | ACCUMULATING tid buffer expected \<Rightarrow>
             if transfer_id f \<noteq> tid then (IDLE, Dropped TransferIdMismatch)
             else if toggle_bit f \<noteq> expected then (IDLE, Dropped ToggleViolation)
             else if end_of_transfer f
               then (IDLE, complete_multi_frame (buffer @ padded_payload f))
               else (ACCUMULATING tid (buffer @ padded_payload f) (\<not> expected), NoOutcome)))"

text \<open>
  Modelled from the spec: feeding a sequence of frames in order (section 4.4, "processing
  one incoming frame at a time in the order frames are received"), collecting what each
  frame caused.
\<close>

fun feed_all :: "reception \<Rightarrow> UAVCANFrame list \<Rightarrow> outcome list" where
  "feed_all st [] = []"
| "feed_all st (f # fs) = (case feed st f of (st', out) \<Rightarrow> out # feed_all st' fs)"

definition reassemble :: "UAVCANFrame list \<Rightarrow> outcome list" where
  "reassemble frames = feed_all IDLE frames"

text \<open>
  Modelled from the spec: the round trip \<^verbatim>\<open>reassemble(serialize(transfer))\<close> of section
  8: serialize, then feed the frames to an idle reassembler. The result is the error of
  the serializer, or what the frames caused, one outcome per frame.
\<close>

definition round_trip ::
  "nat \<Rightarrow> nat \<Rightarrow> byte list list \<Rightarrow> int \<Rightarrow> bool \<Rightarrow> error + outcome list" where
  "round_trip compiled_identifier tid fragmented_payload max_frame_payload_bytes lb =
     (case serialize_transfer compiled_identifier tid fragmented_payload
             max_frame_payload_bytes lb of
        Inl e \<Rightarrow> Inl e
      | Inr frames \<Rightarrow> Inr (reassemble frames))"

declare feed.simps [simp del]

section \<open>Properties of the helpers\<close>

subsection \<open>Facts about the refragmenter\<close>

lemma chunks_Nil [simp]: "chunks n [] = []"
  by (simp add: chunks.simps)

lemma chunks_zero [simp]: "chunks 0 xs = []"
  by (simp add: chunks.simps)

lemma chunks_step: "0 < n \<Longrightarrow> xs \<noteq> [] \<Longrightarrow> chunks n xs = take n xs # chunks n (drop n xs)"
  by (subst chunks.simps) simp

lemma concat_chunks: "0 < n \<Longrightarrow> concat (chunks n xs) = xs"
proof (induction n xs rule: chunks.induct)
  case (1 n xs)
  show ?case
  proof (cases "xs = []")
    case True
    then show ?thesis by simp
  next
    case False
    with 1 show ?thesis by (simp add: chunks_step)
  qed
qed

lemma chunks_single: "0 < n \<Longrightarrow> xs \<noteq> [] \<Longrightarrow> length xs \<le> n \<Longrightarrow> chunks n xs = [xs]"
  by (simp add: chunks_step)

lemma chunks_long:
  assumes "0 < n" "n < length xs"
  shows "chunks n xs = take n xs # take n (drop n xs) # chunks n (drop n (drop n xs))"
proof -
  from assms have "xs \<noteq> []" "drop n xs \<noteq> []" by auto
  with assms(1) show ?thesis by (simp add: chunks_step)
qed

lemma chunks_lengths: "c \<in> set (chunks n xs) \<Longrightarrow> 0 < length c \<and> length c \<le> n"
proof (induction n xs rule: chunks.induct)
  case (1 n xs)
  show ?case
  proof (cases "n = 0 \<or> xs = []")
    case True
    with 1(2) show ?thesis by auto
  next
    case False
    with 1 show ?thesis by (auto simp: chunks_step)
  qed
qed

lemma chunks_full_but_last:
  "i + 1 < length (chunks n xs) \<Longrightarrow> length (chunks n xs ! i) = n"
proof (induction n xs arbitrary: i rule: chunks.induct)
  case (1 n xs)
  show ?case
  proof (cases "n = 0 \<or> xs = []")
    case True
    with 1(2) show ?thesis by auto
  next
    case False
    then have step: "chunks n xs = take n xs # chunks n (drop n xs)"
      by (simp add: chunks_step)
    show ?thesis
    proof (cases i)
      case 0
      with 1(2) step have "chunks n (drop n xs) \<noteq> []" by auto
      then have "drop n xs \<noteq> []" by auto
      with 0 step show ?thesis by simp
    next
      case (Suc j)
      with 1(2) step have "j + 1 < length (chunks n (drop n xs))" by simp
      with 1(1) False have "length (chunks n (drop n xs) ! j) = n" by simp
      with Suc step show ?thesis by simp
    qed
  qed
qed

subsection \<open>Facts about the last-element marker\<close>

lemma length_mark_last [simp]: "length (mark_last xs) = length xs"
  by (induction xs rule: mark_last.induct) simp_all

lemma map_snd_mark_last [simp]: "map snd (mark_last xs) = xs"
  by (induction xs rule: mark_last.induct) simp_all

lemma fst_mark_last:
  "i < length xs \<Longrightarrow> fst (mark_last xs ! i) = (i = length xs - 1)"
proof (induction xs arbitrary: i rule: mark_last.induct)
  case 1
  then show ?case by simp
next
  case (2 x)
  then show ?case by simp
next
  case (3 x y ys)
  then show ?case by (cases i) auto
qed

subsection \<open>Facts about the CRC engine\<close>

lemma crc_add_append: "crc_add (crc_add v a) b = crc_add v (a @ b)"
  by (simp add: crc_add_def)

lemma crc_add_fragments: "foldl crc_add v frags = crc_add v (concat frags)"
  by (induction frags arbitrary: v) (simp_all add: crc_add_def)

lemma length_crc_bytes [simp]: "length (crc_bytes v) = 2"
  by (simp add: crc_bytes_def)

subsection \<open>Facts about the padding calculator\<close>

lemma find_least_sorted:
  "sorted xs \<Longrightarrow> find (\<lambda>x. n \<le> x) xs = Some s \<Longrightarrow>
     s \<in> set xs \<and> n \<le> s \<and> (\<forall>y \<in> set xs. n \<le> y \<longrightarrow> s \<le> y)"
  by (induction xs) (auto split: if_splits)

lemma find_exists: "y \<in> set xs \<Longrightarrow> P y \<Longrightarrow> \<exists>s. find P xs = Some s"
  by (cases "find P xs") (auto simp: find_None_iff)

lemma sorted_LENGTH_TO_DLC: "sorted LENGTH_TO_DLC"
  by (simp add: LENGTH_TO_DLC_def)

lemma dlc_ceiling_least:
  assumes "dlc_ceiling n = Some s"
  shows "dlc_legal s" "n \<le> s" "\<And>y. dlc_legal y \<Longrightarrow> n \<le> y \<Longrightarrow> s \<le> y"
  using find_least_sorted [OF sorted_LENGTH_TO_DLC, of n s] assms
  by (auto simp: dlc_ceiling_def dlc_legal_def)

lemma dlc_ceiling_exists:
  assumes "dlc_legal y" "n \<le> y"
  shows "\<exists>s. dlc_ceiling n = Some s \<and> s \<le> y"
proof -
  from assms obtain s where s: "dlc_ceiling n = Some s"
    unfolding dlc_ceiling_def dlc_legal_def using find_exists [of y LENGTH_TO_DLC "\<lambda>x. n \<le> x"] by auto
  with dlc_ceiling_least(3) [OF s assms] show ?thesis by simp
qed

lemma dlc_legal_64: "dlc_legal 64"
  by (simp add: dlc_legal_def LENGTH_TO_DLC_def)

lemma dlc_legal_le_64: "dlc_legal y \<Longrightarrow> y \<le> 64"
  by (auto simp: dlc_legal_def LENGTH_TO_DLC_def)

text \<open>What the padding calculator returns: the least padding that makes the data with its
  tail byte DLC-legal.\<close>

lemma get_required_padding_Some:
  assumes "get_required_padding n = Some k"
  shows "dlc_legal (n + k + 1)" "\<And>j. j < k \<Longrightarrow> \<not> dlc_legal (n + j + 1)"
proof -
  from assms obtain s where s: "dlc_ceiling (n + 1) = Some s" and k: "k = s - (n + 1)"
    by (auto simp: get_required_padding_def split: option.splits)
  from dlc_ceiling_least(2) [OF s] k have eq: "n + k + 1 = s" by simp
  with dlc_ceiling_least(1) [OF s] show "dlc_legal (n + k + 1)" by simp
  fix j assume "j < k"
  with eq have "n + j + 1 < s" by simp
  with dlc_ceiling_least(3) [OF s, of "n + j + 1"] show "\<not> dlc_legal (n + j + 1)"
    by auto
qed

lemma get_required_padding_fits:
  assumes "dlc_legal (m + 1)" "n \<le> m"
  shows "\<exists>k. get_required_padding n = Some k \<and> n + k \<le> m"
proof -
  from dlc_ceiling_exists [OF assms(1), of "n + 1"] assms(2)
  obtain s where s: "dlc_ceiling (n + 1) = Some s" "s \<le> m + 1" by auto
  from s(1) have "get_required_padding n = Some (s - (n + 1))"
    by (simp add: get_required_padding_def)
  moreover from dlc_ceiling_least(2) [OF s(1)] s(2) have "n + (s - (n + 1)) \<le> m"
    by simp
  ultimately show ?thesis by blast
qed

lemma get_required_padding_defined:
  assumes "n \<le> 63"
  shows "\<exists>k. get_required_padding n = Some k"
  using get_required_padding_fits [of 63 n] assms dlc_legal_64 by auto

lemma get_required_padding_None:
  "get_required_padding n = None \<longleftrightarrow> 63 < n"
proof
  assume "get_required_padding n = None"
  with get_required_padding_defined [of n] show "63 < n" by (cases "n \<le> 63") auto
next
  assume "63 < n"
  show "get_required_padding n = None"
  proof (cases "get_required_padding n")
    case None then show ?thesis .
  next
    case (Some k)
    from get_required_padding_Some(1) [OF Some] dlc_legal_le_64 [of "n + k + 1"] \<open>63 < n\<close>
    show ?thesis by simp
  qed
qed

section \<open>The shape of the serializer's result\<close>

lemma serialize_transfer_invalid:
  "m < 1 \<Longrightarrow> serialize_transfer cid tid frags m lb = Inl ValueError_invalid_max_payload"
  by (simp add: serialize_transfer_def)

lemma length_padded:
  "length (concat frags @ replicate k PADDING_PATTERN) = sum_list (map length frags) + k"
  by (simp add: length_concat)

text \<open>The single-frame path: one frame when the padded payload is a single chunk, the
  failing tuple unpacking otherwise. The assertion that follows the unpacking holds
  whenever it is reached.\<close>

lemma serialize_transfer_single:
  assumes "1 \<le> m" "int (sum_list (map length frags)) \<le> m"
  shows "serialize_transfer cid tid frags m lb =
     (case get_required_padding (sum_list (map length frags)) of
        None \<Rightarrow> Inl NoLegalLength
      | Some k \<Rightarrow>
          if 1 \<le> sum_list (map length frags) + k \<and> int (sum_list (map length frags) + k) \<le> m
          then Inr [single_frame cid tid (concat frags @ replicate k PADDING_PATTERN) lb]
          else Inl ValueError_unpack)"
proof (cases "get_required_padding (sum_list (map length frags))")
  case None
  with assms show ?thesis by (simp add: serialize_transfer_def)
next
  case (Some k)
  let ?xs = "concat frags @ replicate k PADDING_PATTERN"
  let ?n = "nat m"
  have len: "length ?xs = sum_list (map length frags) + k" by (rule length_padded)
  have n: "0 < ?n" using assms(1) by simp
  have unfold: "serialize_transfer cid tid frags m lb =
     (case chunks ?n ?xs of
        [payload] \<Rightarrow>
          if m \<ge> int (length payload) \<and> length payload \<ge> sum_list (map length frags)
          then Inr [single_frame cid tid payload lb]
          else Inl AssertionError
      | _ \<Rightarrow> Inl ValueError_unpack)"
    using assms Some by (simp add: serialize_transfer_def refragment_def)
  consider (empty) "?xs = []" | (one) "?xs \<noteq> []" "length ?xs \<le> ?n" | (more) "?n < length ?xs"
    by linarith
  then show ?thesis
  proof cases
    case empty
    then have c: "chunks ?n ?xs = []" by (simp only: chunks_Nil)
    have "sum_list (map length frags) + k = length ?xs" by (rule len [symmetric])
    also have "\<dots> = 0" using empty by (simp only: list.size)
    finally have "\<not> 1 \<le> sum_list (map length frags) + k" by linarith
    then show ?thesis unfolding unfold c using Some by simp
  next
    case one
    from chunks_single [OF n one] have c: "chunks ?n ?xs = [?xs]" .
    from one len have "1 \<le> sum_list (map length frags) + k"
      by (cases "sum_list (map length frags) + k") auto
    moreover from one(2) len assms(1) have "int (sum_list (map length frags) + k) \<le> m"
      by linarith
    ultimately show ?thesis using Some unfold c len by simp
  next
    case more
    from chunks_long [OF n more] obtain a b cs where c: "chunks ?n ?xs = a # b # cs" by blast
    from more len have "\<not> int (sum_list (map length frags) + k) \<le> m" by linarith
    with Some unfold c show ?thesis by simp
  qed
qed

text \<open>The multi-frame path: the frames carry the chunks of payload, padding and CRC.\<close>

lemma serialize_transfer_multi:
  assumes "1 \<le> m" "m < int (sum_list (map length frags))"
  shows "serialize_transfer cid tid frags m lb =
     (case multi_frame_padding (sum_list (map length frags)) (nat m) of
        None \<Rightarrow> Inl NoLegalLength
      | Some padding \<Rightarrow>
          Inr (map (emit_frame cid tid lb)
                 (enumerate 0 (mark_last (chunks (nat m)
                    (concat frags @ padding
                       @ crc_bytes (crc_add CRC_INITIAL (concat frags @ padding))))))))"
  using assms
  by (simp add: serialize_transfer_def refragment_def crc_add_fragments crc_add_append
      split: option.splits)

lemma serialize_transfer_Inr_valid:
  assumes "serialize_transfer cid tid frags m lb = Inr frames"
  shows "1 \<le> m"
proof (rule ccontr)
  assume "\<not> 1 \<le> m"
  then have "m < 1" by simp
  from serialize_transfer_invalid [OF this, of cid tid frags lb] assms show False by simp
qed

lemma emitted_nth:
  assumes "i < length cs"
  shows "map (emit_frame cid tid lb) (enumerate 0 (mark_last cs)) ! i =
     \<lparr>frame_identifier = cid, padded_payload = cs ! i, transfer_id = tid,
      start_of_transfer = (i = 0), end_of_transfer = (i = length cs - 1),
      toggle_bit = (i mod 2 = 0), loopback = lb\<rparr>"
proof -
  have "snd (mark_last cs ! i) = cs ! i"
    using assms nth_map [of i "mark_last cs" snd] by simp
  moreover have "fst (mark_last cs ! i) = (i = length cs - 1)"
    using assms by (rule fst_mark_last)
  ultimately have "mark_last cs ! i = (i = length cs - 1, cs ! i)"
    by (simp add: prod_eq_iff)
  with assms show ?thesis
    by (simp add: nth_enumerate_eq emit_frame_def)
qed

lemma length_emitted:
  "length (map (emit_frame cid tid lb) (enumerate 0 (mark_last cs))) = length cs"
  by simp

lemma emitted_payloads:
  "map padded_payload (map (emit_frame cid tid lb) (enumerate 0 (mark_last cs))) = cs"
proof (rule nth_equalityI)
  show "length (map padded_payload (map (emit_frame cid tid lb) (enumerate 0 (mark_last cs))))
      = length cs" by simp
next
  fix i
  assume "i < length (map padded_payload
                        (map (emit_frame cid tid lb) (enumerate 0 (mark_last cs))))"
  then have i: "i < length cs" by simp
  then have "map padded_payload (map (emit_frame cid tid lb) (enumerate 0 (mark_last cs))) ! i
      = padded_payload (map (emit_frame cid tid lb) (enumerate 0 (mark_last cs)) ! i)"
    by (simp del: map_map)
  also have "\<dots> = cs ! i" by (simp only: emitted_nth [OF i] UAVCANFrame.simps)
  finally show "map padded_payload
       (map (emit_frame cid tid lb) (enumerate 0 (mark_last cs))) ! i = cs ! i" .
qed

lemma multi_frame_padding_Some:
  assumes "multi_frame_padding tot n = Some padding"
  shows "\<exists>k. padding = replicate k PADDING_PATTERN \<and>
           (if n \<le> tot mod n + 2 then k = 0
            else get_required_padding (tot mod n + 2) = Some k)"
  using assms
  by (auto simp: multi_frame_padding_def TRANSFER_CRC_LENGTH_BYTES_def Let_def
      split: if_splits option.splits)

lemma multi_frame_padding_defined:
  assumes "n \<le> 64"
  shows "\<exists>padding. multi_frame_padding tot n = Some padding"
proof (cases "n \<le> tot mod n + 2")
  case True
  then show ?thesis
    by (simp add: multi_frame_padding_def TRANSFER_CRC_LENGTH_BYTES_def)
next
  case False
  with assms have "tot mod n + 2 \<le> 63" by simp
  from get_required_padding_defined [OF this] False show ?thesis
    by (auto simp: multi_frame_padding_def TRANSFER_CRC_LENGTH_BYTES_def Let_def)
qed

section \<open>Evaluation on concrete transfers\<close>

lemma funpow_8: "(f ^^ 8) x = f (f (f (f (f (f (f (f x)))))))"
  by (simp add: numeral_eq_Suc)

lemma replicate_numeral: "replicate (numeral k) x = x # replicate (pred_numeral k) x"
  by (simp add: numeral_eq_Suc)

lemmas crc_eval = crc_add_def crc_add_byte_def crc_shift_def CRC_INITIAL_def crc_bytes_def
  funpow_8

lemmas padding_eval = get_required_padding_def dlc_ceiling_def LENGTH_TO_DLC_def
  multi_frame_padding_def TRANSFER_CRC_LENGTH_BYTES_def PADDING_PATTERN_def replicate_numeral

lemmas serialize_eval = serialize_transfer_def refragment_def chunks.simps emit_frame_def
  single_frame_def enumerate_simps Let_def padding_eval crc_eval

section \<open>The multi-frame path in general\<close>

lemma multi_frame_result:
  assumes "serialize_transfer cid tid frags m lb = Inr frames"
    and "m < int (sum_list (map length frags))"
  obtains padding where
    "multi_frame_padding (sum_list (map length frags)) (nat m) = Some padding"
    "frames = map (emit_frame cid tid lb)
       (enumerate 0 (mark_last (chunks (nat m)
          (concat frags @ padding
             @ crc_bytes (crc_add CRC_INITIAL (concat frags @ padding))))))"
proof -
  from assms(1) have m: "1 \<le> m" by (rule serialize_transfer_Inr_valid)
  from assms(1) serialize_transfer_multi [OF m assms(2), of cid tid lb] that
  show thesis by (auto split: option.splits)
qed

lemma multi_frame_at_least_two:
  assumes "0 < n" "n < length xs"
  shows "2 \<le> length (chunks n (xs @ ys))"
proof -
  from assms have "n < length (xs @ ys)" by simp
  from chunks_long [OF assms(1) this] show ?thesis by simp
qed

lemma multi_frame_defined:
  assumes "1 \<le> m" "m \<le> 64" "m < int (sum_list (map length frags))"
  shows "\<exists>frames. serialize_transfer cid tid frags m lb = Inr frames"
proof -
  from assms(1,2) have "nat m \<le> 64" by simp
  from multi_frame_padding_defined [OF this, of "sum_list (map length frags)"]
  obtain padding where "multi_frame_padding (sum_list (map length frags)) (nat m) = Some padding"
    by blast
  with serialize_transfer_multi [OF assms(1,3), of cid tid lb] show ?thesis by simp
qed

section \<open>Flags of multi-frame transfers\<close>

text \<open>
  C3. In a multi-frame transfer (total payload length above
  \<^verbatim>\<open>max_frame_payload_bytes\<close>) the frame at index \<open>i\<close> of the emitted sequence has
  \<open>start_of_transfer\<close> exactly when \<open>i = 0\<close>, \<open>end_of_transfer\<close> exactly when it is the last
  frame, and \<open>toggle_bit\<close> equal to \<open>i mod 2 = 0\<close>; there are at least two frames. The
  sequence is emitted whenever the frame capacity is within the DLC table.
\<close>

theorem multi_frame_flags:
  assumes "1 \<le> m" and "m < int (sum_list (map length frags))"
  shows "(m \<le> 64 \<longrightarrow> (\<exists>frames. serialize_transfer cid tid frags m lb = Inr frames))
     \<and> (\<forall>frames. serialize_transfer cid tid frags m lb = Inr frames \<longrightarrow>
           2 \<le> length frames
         \<and> (\<forall>i < length frames.
               start_of_transfer (frames ! i) = (i = 0)
             \<and> end_of_transfer (frames ! i) = (i = length frames - 1)
             \<and> toggle_bit (frames ! i) = (i mod 2 = 0)))"
proof (rule conjI)
  show "m \<le> 64 \<longrightarrow> (\<exists>frames. serialize_transfer cid tid frags m lb = Inr frames)"
    using assms by (simp add: multi_frame_defined)
next
  show "\<forall>frames. serialize_transfer cid tid frags m lb = Inr frames \<longrightarrow>
           2 \<le> length frames
         \<and> (\<forall>i < length frames.
               start_of_transfer (frames ! i) = (i = 0)
             \<and> end_of_transfer (frames ! i) = (i = length frames - 1)
             \<and> toggle_bit (frames ! i) = (i mod 2 = 0))"
  proof (intro allI impI)
    fix frames
    assume emitted: "serialize_transfer cid tid frags m lb = Inr frames"
    from multi_frame_result [OF emitted assms(2)] obtain padding where
      frames: "frames = map (emit_frame cid tid lb)
         (enumerate 0 (mark_last (chunks (nat m)
            (concat frags @ padding
               @ crc_bytes (crc_add CRC_INITIAL (concat frags @ padding))))))"
      by blast
    define cs where "cs = chunks (nat m)
            (concat frags @ padding @ crc_bytes (crc_add CRC_INITIAL (concat frags @ padding)))"
    from frames have len: "length frames = length cs" by (simp add: cs_def)
    have "nat m < length (concat frags)" using assms by (simp add: length_concat)
    moreover have "0 < nat m" using assms(1) by simp
    ultimately have "2 \<le> length cs"
      unfolding cs_def by (simp add: multi_frame_at_least_two)
    with len have two: "2 \<le> length frames" by simp
    have flags: "start_of_transfer (frames ! i) = (i = 0)
        \<and> end_of_transfer (frames ! i) = (i = length frames - 1)
        \<and> toggle_bit (frames ! i) = (i mod 2 = 0)" if "i < length frames" for i
    proof -
      from that len have i: "i < length cs" by simp
      from emitted_nth [OF i, of cid tid lb] frames len show ?thesis
        by (simp add: cs_def)
    qed
    from two flags show "2 \<le> length frames
         \<and> (\<forall>i < length frames.
               start_of_transfer (frames ! i) = (i = 0)
             \<and> end_of_transfer (frames ! i) = (i = length frames - 1)
             \<and> toggle_bit (frames ! i) = (i mod 2 = 0))"
      by blast
  qed
qed

text \<open>
  Witness for C3: three bytes in two fragments with a frame capacity of 2 give three
  frames, flagged start, middle and end, with the toggle true, false, true.
\<close>

theorem multi_frame_flags_witness:
  "(1::int) \<le> 2 \<and> (2::int) < int (sum_list (map length [[1, 2], [3::byte]]))
   \<and> (\<exists>frames. serialize_transfer 1 0 [[1, 2], [3]] 2 False = Inr frames
        \<and> length frames = 3
        \<and> (\<forall>i < length frames.
              start_of_transfer (frames ! i) = (i = 0)
            \<and> end_of_transfer (frames ! i) = (i = length frames - 1)
            \<and> toggle_bit (frames ! i) = (i mod 2 = 0)))"
proof -
  have h1: "(1::int) \<le> 2" by simp
  have h2: "(2::int) < int (sum_list (map length [[1, 2], [3::byte]]))" by simp
  have e: "serialize_transfer 1 0 [[1, 2], [3]] 2 False =
     Inr [\<lparr>frame_identifier = 1, padded_payload = [1, 2], transfer_id = 0,
           start_of_transfer = True, end_of_transfer = False, toggle_bit = True,
           loopback = False\<rparr>,
          \<lparr>frame_identifier = 1, padded_payload = [3, 0xAD], transfer_id = 0,
           start_of_transfer = False, end_of_transfer = False, toggle_bit = False,
           loopback = False\<rparr>,
          \<lparr>frame_identifier = 1, padded_payload = [0xAD], transfer_id = 0,
           start_of_transfer = False, end_of_transfer = True, toggle_bit = True,
           loopback = False\<rparr>]"
    by (simp add: serialize_eval)
  from multi_frame_flags [OF h1 h2, of 1 0 False] e h1 h2 show ?thesis
    by simp
qed

section \<open>The single-frame path in general\<close>

lemma single_frame_defined:
  assumes "1 \<le> sum_list (map length frags)" "int (sum_list (map length frags)) \<le> m"
    and "dlc_legal (nat m + 1)"
  shows "\<exists>k. get_required_padding (sum_list (map length frags)) = Some k
     \<and> int (sum_list (map length frags) + k) \<le> m
     \<and> serialize_transfer cid tid frags m lb =
           Inr [single_frame cid tid (concat frags @ replicate k PADDING_PATTERN) lb]"
proof -
  from assms(1,2) have m: "1 \<le> m" by simp
  from assms(2) have "sum_list (map length frags) \<le> nat m" by simp
  from get_required_padding_fits [OF assms(3) this] obtain k where
    k: "get_required_padding (sum_list (map length frags)) = Some k"
       "sum_list (map length frags) + k \<le> nat m" by blast
  from k(2) m have fits: "int (sum_list (map length frags) + k) \<le> m" by linarith
  from assms(1) have "1 \<le> sum_list (map length frags) + k" by simp
  with serialize_transfer_single [OF m assms(2), of cid tid lb] k(1) fits
  show ?thesis by simp
qed

lemma single_frame_result:
  assumes "serialize_transfer cid tid frags m lb = Inr frames"
    and "int (sum_list (map length frags)) \<le> m"
  obtains k where
    "get_required_padding (sum_list (map length frags)) = Some k"
    "1 \<le> sum_list (map length frags) + k"
    "int (sum_list (map length frags) + k) \<le> m"
    "frames = [single_frame cid tid (concat frags @ replicate k PADDING_PATTERN) lb]"
proof -
  from assms(1) have m: "1 \<le> m" by (rule serialize_transfer_Inr_valid)
  from assms(1) serialize_transfer_single [OF m assms(2), of cid tid lb] that
  show thesis by (auto split: option.splits if_splits)
qed

section \<open>Single-frame claims\<close>

text \<open>
  C2, as stated, fails: nine payload bytes with \<^verbatim>\<open>max_frame_payload_bytes = 9\<close> are
  within the single-frame bound, but the padding calculator rounds the ten bytes of
  payload and tail byte up to twelve without looking at the bound, the padded payload of
  eleven bytes refragments into two chunks, and the tuple unpacking raises; no frame is
  emitted.
\<close>

theorem single_frame_counterexample:
  "int (sum_list (map length [[0, 1, 2, 3, 4, 5, 6, 7, 8 :: byte]])) \<le> 9
   \<and> serialize_transfer 1 0 [[0, 1, 2, 3, 4, 5, 6, 7, 8]] 9 False = Inl ValueError_unpack"
  by (simp add: serialize_eval)

text \<open>
  C2, amended. For every non-empty fragmented payload whose total length is at most
  \<^verbatim>\<open>max_frame_payload_bytes\<close> (equality included), where
  \<^verbatim>\<open>max_frame_payload_bytes + 1\<close> is a DLC-legal frame length, the serializer emits
  exactly one frame, with \<open>start_of_transfer = end_of_transfer = toggle_bit = True\<close>, whose
  payload is the concatenated fragments followed by the required padding only: no CRC
  bytes.
\<close>

theorem single_frame_framing:
  assumes "1 \<le> sum_list (map length frags)"
    and "int (sum_list (map length frags)) \<le> m"
    and "dlc_legal (nat m + 1)"
  shows "\<exists>k. get_required_padding (sum_list (map length frags)) = Some k
     \<and> serialize_transfer cid tid frags m lb =
          Inr [\<lparr>frame_identifier = cid,
                padded_payload = concat frags @ replicate k PADDING_PATTERN,
                transfer_id = tid, start_of_transfer = True, end_of_transfer = True,
                toggle_bit = True, loopback = lb\<rparr>]"
  using single_frame_defined [OF assms, of cid tid lb]
  by (auto simp: single_frame_def)

text \<open>
  Witness for the amended C2: seven bytes with a capacity of seven (exact equality) go out
  as one unpadded frame.
\<close>

theorem single_frame_framing_witness:
  "1 \<le> sum_list (map length [[1, 2, 3, 4], [5, 6, 7 :: byte]])
   \<and> int (sum_list (map length [[1, 2, 3, 4], [5, 6, 7 :: byte]])) \<le> 7
   \<and> dlc_legal (nat 7 + 1)
   \<and> serialize_transfer 1 0 [[1, 2, 3, 4], [5, 6, 7]] 7 False =
        Inr [\<lparr>frame_identifier = 1, padded_payload = [1, 2, 3, 4, 5, 6, 7],
              transfer_id = 0, start_of_transfer = True, end_of_transfer = True,
              toggle_bit = True, loopback = False\<rparr>]"
proof -
  have h1: "1 \<le> sum_list (map length [[1, 2, 3, 4], [5, 6, 7 :: byte]])" by simp
  have h2: "int (sum_list (map length [[1, 2, 3, 4], [5, 6, 7 :: byte]])) \<le> 7" by simp
  have h3: "dlc_legal (nat 7 + 1)" by (simp add: dlc_legal_def LENGTH_TO_DLC_def)
  have pad: "get_required_padding (sum_list (map length [[1, 2, 3, 4], [5, 6, 7 :: byte]]))
      = Some 0"
    by (simp add: padding_eval)
  from single_frame_framing [OF h1 h2 h3, of 1 0 False] pad h1 h2 h3 show ?thesis
    by simp
qed

text \<open>
  C10. On the single-frame path (total payload length at most
  \<^verbatim>\<open>max_frame_payload_bytes\<close>, which is at least 1) the assertion
  \<^verbatim>\<open>max_frame_payload_bytes >= len(payload) >= payload_length\<close> never fails, and the
  padded payload of the emitted frame is at least as long as the payload and at most
  \<^verbatim>\<open>max_frame_payload_bytes\<close> long; there is never more than that one frame. Where the
  padding would exceed the bound it is the tuple unpacking before the assertion that
  raises.
\<close>

theorem single_frame_assertion:
  assumes "1 \<le> m" and "int (sum_list (map length frags)) \<le> m"
  shows "serialize_transfer cid tid frags m lb \<noteq> Inl AssertionError
     \<and> (\<forall>frames. serialize_transfer cid tid frags m lb = Inr frames \<longrightarrow>
           (\<exists>f. frames = [f]
              \<and> sum_list (map length frags) \<le> length (padded_payload f)
              \<and> int (length (padded_payload f)) \<le> m))"
proof (rule conjI)
  show "serialize_transfer cid tid frags m lb \<noteq> Inl AssertionError"
    by (simp add: serialize_transfer_single [OF assms] split: option.splits)
next
  show "\<forall>frames. serialize_transfer cid tid frags m lb = Inr frames \<longrightarrow>
           (\<exists>f. frames = [f]
              \<and> sum_list (map length frags) \<le> length (padded_payload f)
              \<and> int (length (padded_payload f)) \<le> m)"
  proof (intro allI impI)
    fix frames
    assume "serialize_transfer cid tid frags m lb = Inr frames"
    from single_frame_result [OF this assms(2)] obtain k where
      k: "int (sum_list (map length frags) + k) \<le> m"
         "frames = [single_frame cid tid (concat frags @ replicate k PADDING_PATTERN) lb]"
      by blast
    have "length (padded_payload
            (single_frame cid tid (concat frags @ replicate k PADDING_PATTERN) lb))
        = sum_list (map length frags) + k"
      by (simp add: single_frame_def length_concat)
    with k show "\<exists>f. frames = [f]
              \<and> sum_list (map length frags) \<le> length (padded_payload f)
              \<and> int (length (padded_payload f)) \<le> m"
      by simp
  qed
qed

text \<open>
  Witness for C10: eight bytes with a capacity of eleven are padded by three bytes to
  eleven, within the bound.
\<close>

theorem single_frame_assertion_witness:
  "(1::int) \<le> 11 \<and> int (sum_list (map length [[0, 1, 2, 3, 4, 5, 6, 7 :: byte]])) \<le> 11
   \<and> serialize_transfer 1 0 [[0, 1, 2, 3, 4, 5, 6, 7]] 11 False \<noteq> Inl AssertionError
   \<and> (\<exists>f. serialize_transfer 1 0 [[0, 1, 2, 3, 4, 5, 6, 7]] 11 False = Inr [f]
        \<and> length (padded_payload f) = 11)"
proof -
  have h1: "(1::int) \<le> 11" by simp
  have h2: "int (sum_list (map length [[0, 1, 2, 3, 4, 5, 6, 7 :: byte]])) \<le> 11" by simp
  have e: "serialize_transfer 1 0 [[0, 1, 2, 3, 4, 5, 6, 7]] 11 False =
     Inr [\<lparr>frame_identifier = 1, padded_payload = [0, 1, 2, 3, 4, 5, 6, 7, 0x55, 0x55, 0x55],
           transfer_id = 0, start_of_transfer = True, end_of_transfer = True,
           toggle_bit = True, loopback = False\<rparr>]"
    by (simp add: serialize_eval)
  from single_frame_assertion [OF h1 h2, of 1 0 False] e h1 h2 show ?thesis
    by simp
qed

section \<open>Errors of the serializer\<close>

text \<open>
  C6, as stated, fails in its second half: with \<^verbatim>\<open>max_frame_payload_bytes = 8\<close>, which
  is at least 1, eight payload bytes make the serializer raise. With the tail byte they
  need a frame of twelve bytes, the padded payload of eleven bytes does not fit one chunk
  of eight, and the tuple unpacking of the single-frame path raises
  \<^verbatim>\<open>ValueError\<close>.
\<close>

theorem never_raises_counterexample:
  "(1::int) \<le> 8
   \<and> serialize_transfer 0 0 [[1, 2, 3, 4, 5, 6, 7, 8]] 8 False = Inl ValueError_unpack"
  by (simp add: serialize_eval)

text \<open>
  C6, amended. With \<^verbatim>\<open>max_frame_payload_bytes < 1\<close> the serializer raises
  \<^verbatim>\<open>ValueError\<close> and produces no frame. With \<^verbatim>\<open>max_frame_payload_bytes >= 1\<close> such
  that \<^verbatim>\<open>max_frame_payload_bytes + 1\<close> is a DLC-legal frame length, it raises for no
  non-empty fragmented payload, whatever its total length.
\<close>

theorem serializer_errors:
  "(m < 1 \<longrightarrow> serialize_transfer cid tid frags m lb = Inl ValueError_invalid_max_payload)
   \<and> (1 \<le> m \<and> dlc_legal (nat m + 1) \<and> 1 \<le> sum_list (map length frags) \<longrightarrow>
        (\<exists>frames. serialize_transfer cid tid frags m lb = Inr frames))"
proof (intro conjI impI)
  assume "m < 1"
  then show "serialize_transfer cid tid frags m lb = Inl ValueError_invalid_max_payload"
    by (rule serialize_transfer_invalid)
next
  assume a: "1 \<le> m \<and> dlc_legal (nat m + 1) \<and> 1 \<le> sum_list (map length frags)"
  show "\<exists>frames. serialize_transfer cid tid frags m lb = Inr frames"
  proof (cases "int (sum_list (map length frags)) \<le> m")
    case True
    with a single_frame_defined [of frags m cid tid lb] show ?thesis by auto
  next
    case False
    from a dlc_legal_le_64 [of "nat m + 1"] have "m \<le> 64" by simp
    with a False multi_frame_defined [of m frags cid tid lb] show ?thesis by simp
  qed
qed

text \<open>
  Witness for the amended C6: a capacity of 0 is rejected; a capacity of 7 serves a
  three-byte payload.
\<close>

theorem serializer_errors_witness:
  "(0::int) < 1 \<and> serialize_transfer 1 0 [[1, 2, 3]] 0 False = Inl ValueError_invalid_max_payload
   \<and> (1::int) \<le> 7 \<and> dlc_legal (nat 7 + 1) \<and> 1 \<le> sum_list (map length [[1, 2, 3 :: byte]])
   \<and> (\<exists>frames. serialize_transfer 1 0 [[1, 2, 3]] 7 False = Inr frames)"
proof -
  have h: "dlc_legal (nat 7 + 1)" by (simp add: dlc_legal_def LENGTH_TO_DLC_def)
  from serializer_errors [of 0 1 0 "[[1, 2, 3]]" False]
    serializer_errors [of 7 1 0 "[[1, 2, 3]]" False] h
  show ?thesis by simp
qed

section \<open>Byte order of the CRC and the tail byte\<close>

lemma crc_bytes_big_endian:
  assumes "crc_bytes v = [hi, lo]"
  shows "unat v = 256 * unat hi + unat lo"
proof -
  from assms have hi: "hi = ucast (drop_bit 8 v)" and lo: "lo = ucast (v AND 0xFF)"
    by (simp_all add: crc_bytes_def)
  have low: "v AND 0xFF = take_bit 8 v"
    using take_bit_eq_mask [of 8 v] by (simp add: mask_eq_exp_minus_1)
  have "unat lo = take_bit 8 (unat v)"
    unfolding lo low by (simp add: unsigned_ucast_eq unsigned_take_bit_eq)
  then have "unat lo = unat v mod 256"
    by (simp add: take_bit_eq_mod)
  moreover have "unat hi = unat v div 256"
  proof -
    have "unat v < 2 ^ 16" using unsigned_less [of v] by simp
    then have "unat v div 256 < 256" by simp
    moreover have "unat hi = take_bit 8 (drop_bit 8 (unat v))"
      unfolding hi by (simp add: unsigned_ucast_eq unat_drop_bit_eq)
    ultimately show ?thesis
      by (simp add: drop_bit_eq_div take_bit_eq_mod)
  qed
  ultimately show ?thesis by simp
qed

lemma mkf_tail_or:
  "mkf_tail t sot eot tgl =
     push_bit 7 (of_bool sot) OR push_bit 6 (of_bool eot) OR push_bit 5 (of_bool tgl) OR t"
  apply (cases sot; cases eot; cases tgl)
         apply (simp_all add: mkf_tail_def)
        apply (simp_all only: ac_simps)
  done

lemma mkf_tail_byte:
  assumes "t < 32"
  shows "mkf_tail t sot eot tgl < 256"
proof -
  from assms have "take_bit 8 t = t" by (simp add: take_bit_nat_eq_self)
  then have "take_bit 8 (mkf_tail t sot eot tgl) = mkf_tail t sot eot tgl"
    by (cases sot; cases eot; cases tgl) (simp_all add: mkf_tail_def take_bit_or)
  then show ?thesis by (simp add: take_bit_nat_eq_self_iff)
qed


lemma emitted_transfer_id:
  "f \<in> set (map (emit_frame cid tid lb) xs) \<Longrightarrow> transfer_id f = tid"
  by (auto simp: emit_frame_def split: prod.splits)

lemma serialized_transfer_id:
  assumes "serialize_transfer cid tid frags m lb = Inr frames" "f \<in> set frames"
  shows "transfer_id f = tid"
proof (cases "int (sum_list (map length frags)) \<le> m")
  case True
  from single_frame_result [OF assms(1) True] obtain k where
    "frames = [single_frame cid tid (concat frags @ replicate k PADDING_PATTERN) lb]"
    by blast
  with assms(2) show ?thesis by (simp add: single_frame_def)
next
  case False
  then have "m < int (sum_list (map length frags))" by simp
  from multi_frame_result [OF assms(1) this] obtain padding where
    "frames = map (emit_frame cid tid lb)
       (enumerate 0 (mark_last (chunks (nat m)
          (concat frags @ padding
             @ crc_bytes (crc_add CRC_INITIAL (concat frags @ padding))))))"
    by blast
  with assms(2) show ?thesis by (simp only: emitted_transfer_id)
qed

lemma multi_frame_stream:
  assumes "serialize_transfer cid tid frags m lb = Inr frames"
    and "m < int (sum_list (map length frags))"
  obtains padding where
    "multi_frame_padding (sum_list (map length frags)) (nat m) = Some padding"
    "concat (map padded_payload frames) =
       concat frags @ padding @ crc_bytes (crc_add CRC_INITIAL (concat frags @ padding))"
proof -
  from assms(1) have "1 \<le> m" by (rule serialize_transfer_Inr_valid)
  then have n: "0 < nat m" by simp
  from multi_frame_result [OF assms] obtain padding where
    p: "multi_frame_padding (sum_list (map length frags)) (nat m) = Some padding"
    and f: "frames = map (emit_frame cid tid lb)
       (enumerate 0 (mark_last (chunks (nat m)
          (concat frags @ padding
             @ crc_bytes (crc_add CRC_INITIAL (concat frags @ padding))))))"
    by blast
  from f have "map padded_payload frames = chunks (nat m)
          (concat frags @ padding @ crc_bytes (crc_add CRC_INITIAL (concat frags @ padding)))"
    by (simp only: emitted_payloads)
  then have "concat (map padded_payload frames) =
       concat frags @ padding @ crc_bytes (crc_add CRC_INITIAL (concat frags @ padding))"
    by (simp only: concat_chunks [OF n])
  with p that show thesis by blast
qed

section \<open>Padding and CRC of multi-frame transfers\<close>

text \<open>
  C4, as stated, fails on the fourth vector of the unit test: thirty payload bytes with
  \<^verbatim>\<open>max_frame_payload_bytes = 11\<close> leave \<open>rem = 8\<close>, and \<open>rem + 2 = 10\<close> is below 11. The
  serializer inserts one padding byte. That does not round ten up to a DLC-legal length:
  eleven is not one, and the next one, twelve, is above the bound. What becomes DLC-legal
  is the frame with its tail byte, twelve bytes.
\<close>

theorem multi_frame_padding_counterexample:
  "map_sum id (map padded_payload)
     (serialize_transfer 123456 32323219 [map of_nat [0..<30]] 11 False) =
     Inr [[0x00, 0x01, 0x02, 0x03, 0x04, 0x05, 0x06, 0x07, 0x08, 0x09, 0x0a],
          [0x0b, 0x0c, 0x0d, 0x0e, 0x0f, 0x10, 0x11, 0x12, 0x13, 0x14, 0x15],
          [0x16, 0x17, 0x18, 0x19, 0x1a, 0x1b, 0x1c, 0x1d, 0x55, 0x38, 0xa6]]
   \<and> multi_frame_padding 30 11 = Some [PADDING_PATTERN]
   \<and> 30 mod 11 + 2 < (11::nat)
   \<and> \<not> dlc_legal (30 mod 11 + 2 + length [PADDING_PATTERN])
   \<and> dlc_ceiling (30 mod 11 + 2) = Some 12"
  by (simp add: serialize_eval dlc_legal_def upt_rec)

text \<open>
  The padding of an emitted multi-frame transfer: the frames carry the fragments, then
  \<open>k\<close> padding bytes, then the two CRC bytes, where \<open>k\<close> is 0 when the CRC does not fit
  the last data-bearing frame and else the least number that makes data, CRC and tail
  byte a DLC-legal length.
\<close>

lemma emitted_multi_frame_padding:
  assumes "serialize_transfer cid tid frags m lb = Inr frames"
    and "m < int (sum_list (map length frags))"
  shows "\<exists>k. concat (map padded_payload frames) =
            concat frags @ replicate k PADDING_PATTERN
              @ crc_bytes (crc_add CRC_INITIAL (concat frags @ replicate k PADDING_PATTERN))
     \<and> (if nat m \<le> sum_list (map length frags) mod nat m + 2 then k = 0
         else dlc_legal (sum_list (map length frags) mod nat m + 2 + k + 1)
            \<and> (\<forall>j < k. \<not> dlc_legal (sum_list (map length frags) mod nat m + 2 + j + 1))
            \<and> (dlc_legal (nat m + 1) \<longrightarrow>
                  sum_list (map length frags) mod nat m + 2 + k \<le> nat m))"
proof -
  let ?rem = "sum_list (map length frags) mod nat m"
  from multi_frame_stream [OF assms] obtain padding where
    p: "multi_frame_padding (sum_list (map length frags)) (nat m) = Some padding"
    and s: "concat (map padded_payload frames) =
       concat frags @ padding @ crc_bytes (crc_add CRC_INITIAL (concat frags @ padding))"
    by blast
  from multi_frame_padding_Some [OF p] obtain k where
    k: "padding = replicate k PADDING_PATTERN"
       "if nat m \<le> ?rem + 2 then k = 0 else get_required_padding (?rem + 2) = Some k"
    by blast
  have "if nat m \<le> ?rem + 2 then k = 0
         else dlc_legal (?rem + 2 + k + 1)
            \<and> (\<forall>j < k. \<not> dlc_legal (?rem + 2 + j + 1))
            \<and> (dlc_legal (nat m + 1) \<longrightarrow> ?rem + 2 + k \<le> nat m)"
  proof (cases "nat m \<le> ?rem + 2")
    case True
    with k(2) show ?thesis by simp
  next
    case False
    with k(2) have g: "get_required_padding (?rem + 2) = Some k" by simp
    have "?rem + 2 + k \<le> nat m" if "dlc_legal (nat m + 1)"
    proof -
      from False have "?rem + 2 \<le> nat m" by simp
      from get_required_padding_fits [OF that this] g show ?thesis by simp
    qed
    with get_required_padding_Some [OF g] False show ?thesis by simp
  qed
  with s k(1) show ?thesis by blast
qed

text \<open>
  C4, amended. For every multi-frame transfer with \<^verbatim>\<open>max_frame_payload_bytes\<close> at most
  64, the range of the DLC table, the serializer emits frames. In every emitted
  multi-frame transfer, with \<open>rem = total_payload_length mod max_frame_payload_bytes\<close>, the
  frames carry the fragments, then \<open>k\<close> padding bytes 0x55, then the two CRC bytes. If
  \<open>rem + 2 >= max_frame_payload_bytes\<close> then \<open>k = 0\<close>; otherwise \<open>k\<close> is the least number
  that makes \<open>rem + 2 + k + 1\<close>, the data of the last frame with its tail byte, a DLC-legal
  length. The bound \<^verbatim>\<open>max_frame_payload_bytes\<close> is not consulted in the rounding, but when
  \<^verbatim>\<open>max_frame_payload_bytes + 1\<close> is DLC-legal the padded data stay within it.
\<close>

theorem multi_frame_padding_length:
  assumes "1 \<le> m" and "m < int (sum_list (map length frags))"
  shows "(m \<le> 64 \<longrightarrow> (\<exists>frames. serialize_transfer cid tid frags m lb = Inr frames))
     \<and> (\<forall>frames. serialize_transfer cid tid frags m lb = Inr frames \<longrightarrow>
          (\<exists>k. concat (map padded_payload frames) =
                 concat frags @ replicate k PADDING_PATTERN
                   @ crc_bytes (crc_add CRC_INITIAL
                       (concat frags @ replicate k PADDING_PATTERN))
             \<and> (if nat m \<le> sum_list (map length frags) mod nat m + 2 then k = 0
                 else dlc_legal (sum_list (map length frags) mod nat m + 2 + k + 1)
                    \<and> (\<forall>j < k. \<not> dlc_legal
                                    (sum_list (map length frags) mod nat m + 2 + j + 1))
                    \<and> (dlc_legal (nat m + 1) \<longrightarrow>
                          sum_list (map length frags) mod nat m + 2 + k \<le> nat m))))"
proof (rule conjI)
  show "m \<le> 64 \<longrightarrow> (\<exists>frames. serialize_transfer cid tid frags m lb = Inr frames)"
    using assms by (simp add: multi_frame_defined)
next
  show "\<forall>frames. serialize_transfer cid tid frags m lb = Inr frames \<longrightarrow>
          (\<exists>k. concat (map padded_payload frames) =
                 concat frags @ replicate k PADDING_PATTERN
                   @ crc_bytes (crc_add CRC_INITIAL
                       (concat frags @ replicate k PADDING_PATTERN))
             \<and> (if nat m \<le> sum_list (map length frags) mod nat m + 2 then k = 0
                 else dlc_legal (sum_list (map length frags) mod nat m + 2 + k + 1)
                    \<and> (\<forall>j < k. \<not> dlc_legal
                                    (sum_list (map length frags) mod nat m + 2 + j + 1))
                    \<and> (dlc_legal (nat m + 1) \<longrightarrow>
                          sum_list (map length frags) mod nat m + 2 + k \<le> nat m)))"
    using emitted_multi_frame_padding [OF _ assms(2)] by blast
qed

text \<open>
  Witness for the amended C4: eighteen bytes with a capacity of 11 are emitted in two
  frames and leave \<open>rem + 2 = 9\<close>; two padding bytes make the last frame, with its tail
  byte, twelve bytes long.
\<close>

theorem multi_frame_padding_length_witness:
  "(1::int) \<le> 11 \<and> (11::int) \<le> 64
   \<and> (11::int) < int (sum_list (map length
       [[1, 2, 3, 4, 5, 6, 7, 8, 9, 10, 11, 12], [13, 14, 15, 16, 17, 18 :: byte]]))
   \<and> (\<exists>frames. serialize_transfer 1 0
           [[1, 2, 3, 4, 5, 6, 7, 8, 9, 10, 11, 12], [13, 14, 15, 16, 17, 18]] 11 False
         = Inr frames)
   \<and> map_sum id (map padded_payload)
        (serialize_transfer 1 0
           [[1, 2, 3, 4, 5, 6, 7, 8, 9, 10, 11, 12], [13, 14, 15, 16, 17, 18]] 11 False) =
      Inr [[1, 2, 3, 4, 5, 6, 7, 8, 9, 10, 11],
           [12, 13, 14, 15, 16, 17, 18, 0x55, 0x55, 0xE3, 0xE4]]
   \<and> (\<exists>k. k = 2 \<and> dlc_legal (18 mod nat 11 + 2 + k + 1)
          \<and> (\<forall>j < k. \<not> dlc_legal (18 mod nat 11 + 2 + j + 1))
          \<and> 18 mod nat 11 + 2 + k \<le> nat 11)"
proof -
  let ?frags = "[[1, 2, 3, 4, 5, 6, 7, 8, 9, 10, 11, 12], [13, 14, 15, 16, 17, 18 :: byte]]"
  let ?frames = "[\<lparr>frame_identifier = 1,
           padded_payload = [1, 2, 3, 4, 5, 6, 7, 8, 9, 10, 11], transfer_id = 0,
           start_of_transfer = True, end_of_transfer = False, toggle_bit = True,
           loopback = False\<rparr>,
          \<lparr>frame_identifier = 1,
           padded_payload = [12, 13, 14, 15, 16, 17, 18, 0x55, 0x55, 0xE3, 0xE4],
           transfer_id = 0, start_of_transfer = False, end_of_transfer = True,
           toggle_bit = False, loopback = False\<rparr>]"
  have h1: "(1::int) \<le> 11" by simp
  have h2: "(11::int) \<le> 64" by simp
  have h: "(11::int) < int (sum_list (map length ?frags))"
    by simp
  have e: "serialize_transfer 1 0 ?frags 11 False = Inr ?frames"
    by (simp add: serialize_eval)
  have d: "dlc_legal (nat 11 + 1)" by (simp add: dlc_legal_def LENGTH_TO_DLC_def)
  have t: "sum_list (map length ?frags) mod nat 11 + 2 = 9" by simp
  note c4 = multi_frame_padding_length [OF h1 h, of 1 0 False]
  from c4 h2 have emitted: "\<exists>frames. serialize_transfer 1 0 ?frags 11 False = Inr frames"
    by blast
  from c4 e obtain k where
    k: "concat (map padded_payload ?frames) =
        concat ?frags @ replicate k PADDING_PATTERN
          @ crc_bytes (crc_add CRC_INITIAL (concat ?frags @ replicate k PADDING_PATTERN))"
    and r: "if nat 11 \<le> sum_list (map length ?frags) mod nat 11 + 2 then k = 0
         else dlc_legal (sum_list (map length ?frags) mod nat 11 + 2 + k + 1)
            \<and> (\<forall>j < k. \<not> dlc_legal (sum_list (map length ?frags) mod nat 11 + 2 + j + 1))
            \<and> (dlc_legal (nat 11 + 1) \<longrightarrow>
                  sum_list (map length ?frags) mod nat 11 + 2 + k \<le> nat 11)"
    by blast
  from k have "length (concat (map padded_payload ?frames)) =
      length (concat ?frags) + k + 2"
    by (simp only: length_append length_replicate length_crc_bytes)
  then have k2: "k = 2" by simp
  from r d have "dlc_legal (9 + k + 1) \<and> (\<forall>j < k. \<not> dlc_legal (9 + j + 1)) \<and> 9 + k \<le> 11"
    unfolding t by simp
  with k2 e h h1 h2 emitted show ?thesis by simp
qed

section \<open>The CRC of multi-frame transfers\<close>

text \<open>The check value of CRC-16/CCITT-FALSE: the CRC of the ASCII digits 1 to 9.\<close>

lemma crc_check_value:
  "crc_add CRC_INITIAL [0x31, 0x32, 0x33, 0x34, 0x35, 0x36, 0x37, 0x38, 0x39] = 0x29B1"
  by (simp add: crc_eval)

text \<open>The CRC values that the unit test of the source file asserts.\<close>

lemma crc_unit_test_values:
  "crc_add CRC_INITIAL (map of_nat [0..<30]) = 0x3554"
  "crc_add CRC_INITIAL (map of_nat [0..<29]) = 0xC46F"
  "crc_add CRC_INITIAL (map of_nat [0..<30] @ [0x55]) = 0x38A6"
  by (simp_all add: crc_eval upt_rec)

text \<open>
  The byte stream of an emitted transfer: fragments, padding and big-endian CRC on the
  multi-frame path, fragments and padding on the single-frame path.
\<close>

lemma emitted_stream:
  assumes "serialize_transfer cid tid frags m lb = Inr frames"
  shows "(m < int (sum_list (map length frags)) \<longrightarrow>
           (\<exists>k hi lo.
               crc_bytes (crc_add CRC_INITIAL (concat frags @ replicate k PADDING_PATTERN))
                 = [hi, lo]
             \<and> unat (crc_add CRC_INITIAL (concat frags @ replicate k PADDING_PATTERN))
                 = 256 * unat hi + unat lo
             \<and> concat (map padded_payload frames) =
                 concat frags @ replicate k PADDING_PATTERN @ [hi, lo]))
     \<and> (int (sum_list (map length frags)) \<le> m \<longrightarrow>
           (\<exists>k. concat (map padded_payload frames) =
                  concat frags @ replicate k PADDING_PATTERN))"
proof (intro conjI impI)
  assume multi: "m < int (sum_list (map length frags))"
  from multi_frame_stream [OF assms multi] obtain padding where
    p: "multi_frame_padding (sum_list (map length frags)) (nat m) = Some padding"
    and s: "concat (map padded_payload frames) =
       concat frags @ padding @ crc_bytes (crc_add CRC_INITIAL (concat frags @ padding))"
    by blast
  from multi_frame_padding_Some [OF p] obtain k where
    k: "padding = replicate k PADDING_PATTERN" by blast
  define crc where "crc = crc_add CRC_INITIAL (concat frags @ replicate k PADDING_PATTERN)"
  obtain hi lo where b: "crc_bytes crc = [hi, lo]" by (simp add: crc_bytes_def)
  from crc_bytes_big_endian [OF b] b s k
  show "\<exists>k hi lo.
               crc_bytes (crc_add CRC_INITIAL (concat frags @ replicate k PADDING_PATTERN))
                 = [hi, lo]
             \<and> unat (crc_add CRC_INITIAL (concat frags @ replicate k PADDING_PATTERN))
                 = 256 * unat hi + unat lo
             \<and> concat (map padded_payload frames) =
                 concat frags @ replicate k PADDING_PATTERN @ [hi, lo]"
    unfolding crc_def by auto
next
  assume single: "int (sum_list (map length frags)) \<le> m"
  from single_frame_result [OF assms single] obtain k where
    "frames = [single_frame cid tid (concat frags @ replicate k PADDING_PATTERN) lb]"
    by blast
  then have "concat (map padded_payload frames) = concat frags @ replicate k PADDING_PATTERN"
    by (simp add: single_frame_def)
  then show "\<exists>k. concat (map padded_payload frames) =
                  concat frags @ replicate k PADDING_PATTERN" ..
qed

text \<open>
  C5, as stated, fails for a multi-frame transfer beyond the DLC table: 135 payload bytes
  with \<^verbatim>\<open>max_frame_payload_bytes = 70\<close> leave \<open>rem = 65\<close>, and \<open>rem + 2 = 67\<close> is
  below 70, so the padding calculator is asked to round 68 bytes up to a DLC-legal length.
  There is none above 64: the serializer raises before any frame, and no CRC is computed
  or appended.
\<close>

theorem multi_frame_crc_counterexample:
  "(70::int) < int (sum_list (map length [replicate 135 (0::byte)]))
   \<and> multi_frame_padding 135 70 = None
   \<and> serialize_transfer 1 0 [replicate 135 0] 70 False = Inl NoLegalLength"
proof -
  have h1: "(1::int) \<le> 70" by simp
  have h2: "(70::int) < int (sum_list (map length [replicate 135 (0::byte)]))" by simp
  have p: "multi_frame_padding 135 70 = None"
    by (simp add: multi_frame_padding_def get_required_padding_def dlc_ceiling_def
        LENGTH_TO_DLC_def TRANSFER_CRC_LENGTH_BYTES_def)
  from serialize_transfer_multi [OF h1 h2, of 1 0 False] p h2 show ?thesis
    by simp
qed

text \<open>
  C5, amended. Every multi-frame transfer with \<^verbatim>\<open>max_frame_payload_bytes\<close> at most 64,
  the range of the DLC table, is emitted, and so is every non-empty single-frame transfer when
  \<^verbatim>\<open>max_frame_payload_bytes + 1\<close> is DLC-legal. In every emitted multi-frame transfer the
  byte stream that is cut into frames is the concatenated fragments, then the padding
  bytes 0x55, then the two bytes of the CRC, high byte first; the CRC is taken over
  fragments and padding, the CRC bytes excluded. An emitted single-frame transfer carries
  fragments and padding only. The CRC engine starts from 0xFFFF, and a single set low bit
  shifted through a zero register leaves the polynomial 0x1021.
\<close>

theorem multi_frame_crc:
  "(1 \<le> m \<and> m \<le> 64 \<and> m < int (sum_list (map length frags)) \<longrightarrow>
      (\<exists>frames. serialize_transfer cid tid frags m lb = Inr frames))
   \<and> (1 \<le> sum_list (map length frags) \<and> int (sum_list (map length frags)) \<le> m
        \<and> dlc_legal (nat m + 1) \<longrightarrow>
      (\<exists>frames. serialize_transfer cid tid frags m lb = Inr frames))
   \<and> (\<forall>frames. serialize_transfer cid tid frags m lb = Inr frames \<longrightarrow>
        (m < int (sum_list (map length frags)) \<longrightarrow>
           (\<exists>k hi lo.
               crc_bytes (crc_add CRC_INITIAL (concat frags @ replicate k PADDING_PATTERN))
                 = [hi, lo]
             \<and> unat (crc_add CRC_INITIAL (concat frags @ replicate k PADDING_PATTERN))
                 = 256 * unat hi + unat lo
             \<and> concat (map padded_payload frames) =
                 concat frags @ replicate k PADDING_PATTERN @ [hi, lo]))
      \<and> (int (sum_list (map length frags)) \<le> m \<longrightarrow>
           (\<exists>k. concat (map padded_payload frames) =
                  concat frags @ replicate k PADDING_PATTERN)))
   \<and> crc_add CRC_INITIAL [] = 0xFFFF
   \<and> crc_add 0 [1] = 0x1021"
proof (intro conjI)
  show "1 \<le> m \<and> m \<le> 64 \<and> m < int (sum_list (map length frags)) \<longrightarrow>
      (\<exists>frames. serialize_transfer cid tid frags m lb = Inr frames)"
    by (simp add: multi_frame_defined)
next
  show "1 \<le> sum_list (map length frags) \<and> int (sum_list (map length frags)) \<le> m
        \<and> dlc_legal (nat m + 1) \<longrightarrow>
      (\<exists>frames. serialize_transfer cid tid frags m lb = Inr frames)"
    using single_frame_defined [of frags m cid tid lb] by blast
next
  show "\<forall>frames. serialize_transfer cid tid frags m lb = Inr frames \<longrightarrow>
        (m < int (sum_list (map length frags)) \<longrightarrow>
           (\<exists>k hi lo.
               crc_bytes (crc_add CRC_INITIAL (concat frags @ replicate k PADDING_PATTERN))
                 = [hi, lo]
             \<and> unat (crc_add CRC_INITIAL (concat frags @ replicate k PADDING_PATTERN))
                 = 256 * unat hi + unat lo
             \<and> concat (map padded_payload frames) =
                 concat frags @ replicate k PADDING_PATTERN @ [hi, lo]))
      \<and> (int (sum_list (map length frags)) \<le> m \<longrightarrow>
           (\<exists>k. concat (map padded_payload frames) =
                  concat frags @ replicate k PADDING_PATTERN))"
    using emitted_stream by blast
next
  show "crc_add CRC_INITIAL [] = 0xFFFF" by (simp add: crc_eval)
next
  show "crc_add 0 [1] = 0x1021" by (simp add: crc_eval)
qed

text \<open>
  Witness for C5: five bytes in two fragments with a capacity of 3 go out in three frames;
  the CRC 0x9304 of the five bytes follows them, high byte first. Three bytes with a
  capacity of 7 go out in one frame without CRC.
\<close>

theorem multi_frame_crc_witness:
  "(1::int) \<le> 3 \<and> (3::int) \<le> 64
   \<and> (3::int) < int (sum_list (map length [[1, 2, 3, 4], [5 :: byte]]))
   \<and> (\<exists>frames. serialize_transfer 1 0 [[1, 2, 3, 4], [5]] 3 False = Inr frames)
   \<and> serialize_transfer 1 0 [[1, 2, 3, 4], [5]] 3 False =
     Inr [\<lparr>frame_identifier = 1, padded_payload = [1, 2, 3], transfer_id = 0,
           start_of_transfer = True, end_of_transfer = False, toggle_bit = True,
           loopback = False\<rparr>,
          \<lparr>frame_identifier = 1, padded_payload = [4, 5, 0x93], transfer_id = 0,
           start_of_transfer = False, end_of_transfer = False, toggle_bit = False,
           loopback = False\<rparr>,
          \<lparr>frame_identifier = 1, padded_payload = [0x04], transfer_id = 0,
           start_of_transfer = False, end_of_transfer = True, toggle_bit = True,
           loopback = False\<rparr>]
   \<and> crc_add CRC_INITIAL [1, 2, 3, 4, 5] = 0x9304
   \<and> (\<exists>k hi lo.
         crc_bytes (crc_add CRC_INITIAL (concat [[1, 2, 3, 4], [5]] @ replicate k PADDING_PATTERN))
           = [hi, lo]
       \<and> [1, 2, 3, 4, 5, 0x93, 0x04] =
           concat [[1, 2, 3, 4], [5]] @ replicate k PADDING_PATTERN @ [hi, lo])
   \<and> 1 \<le> sum_list (map length [[1, 2, 3 :: byte]])
   \<and> int (sum_list (map length [[1, 2, 3 :: byte]])) \<le> 7
   \<and> dlc_legal (nat 7 + 1)
   \<and> serialize_transfer 1 0 [[1, 2, 3]] 7 False =
     Inr [\<lparr>frame_identifier = 1, padded_payload = [1, 2, 3], transfer_id = 0,
           start_of_transfer = True, end_of_transfer = True, toggle_bit = True,
           loopback = False\<rparr>]
   \<and> (\<exists>k. [1, 2, 3] = concat [[1, 2, 3]] @ replicate k PADDING_PATTERN)"
proof -
  let ?multi = "[\<lparr>frame_identifier = 1, padded_payload = [1, 2, 3], transfer_id = 0,
           start_of_transfer = True, end_of_transfer = False, toggle_bit = True,
           loopback = False\<rparr>,
          \<lparr>frame_identifier = 1, padded_payload = [4, 5, 0x93], transfer_id = 0,
           start_of_transfer = False, end_of_transfer = False, toggle_bit = False,
           loopback = False\<rparr>,
          \<lparr>frame_identifier = 1, padded_payload = [0x04 :: byte], transfer_id = 0,
           start_of_transfer = False, end_of_transfer = True, toggle_bit = True,
           loopback = False\<rparr>]"
  let ?single = "[\<lparr>frame_identifier = 1, padded_payload = [1, 2, 3 :: byte], transfer_id = 0,
           start_of_transfer = True, end_of_transfer = True, toggle_bit = True,
           loopback = False\<rparr>]"
  have e: "serialize_transfer 1 0 [[1, 2, 3, 4], [5]] 3 False = Inr ?multi"
    by (simp add: serialize_eval)
  have s: "serialize_transfer 1 0 [[1, 2, 3]] 7 False = Inr ?single"
    by (simp add: serialize_eval)
  have c: "crc_add CRC_INITIAL [1, 2, 3, 4, 5] = 0x9304"
    by (simp add: crc_eval)
  have d: "dlc_legal (nat 7 + 1)" by (simp add: dlc_legal_def LENGTH_TO_DLC_def)
  have hm: "(3::int) < int (sum_list (map length [[1, 2, 3, 4], [5 :: byte]]))" by simp
  have hs: "int (sum_list (map length [[1, 2, 3 :: byte]])) \<le> 7" by simp
  note multi = multi_frame_crc [where m = 3 and frags = "[[1, 2, 3, 4], [5]]"
      and cid = 1 and tid = 0 and lb = False]
  note single = multi_frame_crc [where m = 7 and frags = "[[1, 2, 3]]"
      and cid = 1 and tid = 0 and lb = False]
  from multi hm have emitted: "\<exists>frames. serialize_transfer 1 0 [[1, 2, 3, 4], [5]] 3 False
      = Inr frames"
    by simp
  from multi e hm have stream: "\<exists>k hi lo.
         crc_bytes (crc_add CRC_INITIAL (concat [[1, 2, 3, 4], [5]] @ replicate k PADDING_PATTERN))
           = [hi, lo]
       \<and> concat (map padded_payload ?multi) =
           concat [[1, 2, 3, 4], [5]] @ replicate k PADDING_PATTERN @ [hi, lo]"
    by blast
  from single s hs have plain: "\<exists>k. concat (map padded_payload ?single) =
      concat [[1, 2, 3]] @ replicate k PADDING_PATTERN"
    by blast
  from emitted stream plain e s c d hm hs show ?thesis
    by simp
qed

section \<open>The vectors of the unit test\<close>

text \<open>
  The five assertions of \<^verbatim>\<open>_unittest_can_serialize_transfer\<close>: what \<^verbatim>\<open>run\<close> returns is
  what \<^verbatim>\<open>mkf\<close> builds. They tie the modelled helpers to the source file.
\<close>

lemmas run_eval = run_def compile_def mkf_def mkf_tail_def TRANSFER_ID_MODULO_def
  serialize_eval

lemma unit_test_vector_1:
  "map_sum id (map Inr) (run 0xbadc0fe 32 [[0x48, 0x65, 0x6C, 0x6C], [0x6F]] 7 False) =
     Inr [mkf 0xbadc0fe [0x48, 0x65, 0x6C, 0x6C, 0x6F] 0 True True True False]"
  by (simp add: run_eval)

lemma unit_test_vector_2:
  "map_sum id (map Inr) (run 0xbadc0fe (32 + 19) [map of_nat [0..<60]] 63 True) =
     Inr [mkf 0xbadc0fe (map of_nat [0..<60] @ [0x55, 0x55, 0x55]) 19 True True True True]"
  by (simp add: run_eval upt_rec)

lemma unit_test_vector_3:
  "map_sum id (map Inr) (run 0xbadc0fe 323219 [map of_nat [0..<30]] 7 False) =
     Inr [mkf 0xbadc0fe [0x00, 0x01, 0x02, 0x03, 0x04, 0x05, 0x06] 19 True False True False,
          mkf 0xbadc0fe [0x07, 0x08, 0x09, 0x0a, 0x0b, 0x0c, 0x0d] 19 False False False False,
          mkf 0xbadc0fe [0x0e, 0x0f, 0x10, 0x11, 0x12, 0x13, 0x14] 19 False False True False,
          mkf 0xbadc0fe [0x15, 0x16, 0x17, 0x18, 0x19, 0x1a, 0x1b] 19 False False False False,
          mkf 0xbadc0fe [0x1c, 0x1d, 0x35, 0x54] 19 False True True False]"
  by (simp add: run_eval upt_rec)

lemma unit_test_vector_4:
  "map_sum id (map Inr) (run 123456 32323219 [map of_nat [0..<29]] 15 True) =
     Inr [mkf 123456 [0x00, 0x01, 0x02, 0x03, 0x04, 0x05, 0x06, 0x07, 0x08, 0x09, 0x0a,
                      0x0b, 0x0c, 0x0d, 0x0e] 19 True False True True,
          mkf 123456 [0x0f, 0x10, 0x11, 0x12, 0x13, 0x14, 0x15, 0x16, 0x17, 0x18, 0x19,
                      0x1a, 0x1b, 0x1c, 0xc4] 19 False False False True,
          mkf 123456 [0x6f] 19 False True True True]"
  by (simp add: run_eval upt_rec)

lemma unit_test_vector_5:
  "map_sum id (map Inr) (run 123456 32323219 [map of_nat [0..<30]] 11 False) =
     Inr [mkf 123456 [0x00, 0x01, 0x02, 0x03, 0x04, 0x05, 0x06, 0x07, 0x08, 0x09, 0x0a]
            19 True False True False,
          mkf 123456 [0x0b, 0x0c, 0x0d, 0x0e, 0x0f, 0x10, 0x11, 0x12, 0x13, 0x14, 0x15]
            19 False False False False,
          mkf 123456 [0x16, 0x17, 0x18, 0x19, 0x1a, 0x1b, 0x1c, 0x1d, 0x55, 0x38, 0xa6]
            19 False True True False]"
  by (simp add: run_eval upt_rec)

section \<open>Known transfers\<close>

text \<open>
  C7. The payload of the bytes 0 to 29 (the thirty bytes \<^verbatim>\<open>bytes(range(0x1E))\<close> of the
  unit test) in one fragment with \<^verbatim>\<open>max_frame_payload_bytes = 7\<close>: no padding is
  needed, the CRC over payload and padding is 0x3554, five frames are emitted, and the
  last one ends, before its tail byte, with 0x35 0x54.
\<close>

theorem known_crc:
  "multi_frame_padding 30 7 = Some []
   \<and> crc_add CRC_INITIAL (map of_nat [0..<30] @ []) = 0x3554
   \<and> map_sum id (map padded_payload)
        (serialize_transfer 0xbadc0fe 323219 [map of_nat [0..<30]] 7 False) =
      Inr [[0x00, 0x01, 0x02, 0x03, 0x04, 0x05, 0x06],
           [0x07, 0x08, 0x09, 0x0a, 0x0b, 0x0c, 0x0d],
           [0x0e, 0x0f, 0x10, 0x11, 0x12, 0x13, 0x14],
           [0x15, 0x16, 0x17, 0x18, 0x19, 0x1a, 0x1b],
           [0x1c, 0x1d, 0x35, 0x54]]
   \<and> map_sum id (df_data \<circ> last)
        (run 0xbadc0fe 323219 [map of_nat [0..<30]] 7 False) =
      Inr [0x1c, 0x1d, 0x35, 0x54, 0x73]"
  by (simp add: run_eval upt_rec)

text \<open>
  C8, as stated, fails: for \<^verbatim>\<open>b"Hello"\<close> in the fragments \<^verbatim>\<open>"Hell"\<close> and
  \<^verbatim>\<open>"o"\<close> with \<^verbatim>\<open>max_frame_payload_bytes = 7\<close> the data of the single frame are not
  \<^verbatim>\<open>"Hello"\<close> followed by two padding bytes.
\<close>

theorem hello_counterexample:
  "map_sum id (map padded_payload)
     (serialize_transfer 0xbadc0fe 32 [[0x48, 0x65, 0x6C, 0x6C], [0x6F]] 7 False)
   \<noteq> Inr [[0x48, 0x65, 0x6C, 0x6C, 0x6F, 0x55, 0x55]]"
  by (simp add: serialize_eval)

text \<open>
  C8, amended. For \<^verbatim>\<open>b"Hello"\<close> in the fragments \<^verbatim>\<open>"Hell"\<close> and \<^verbatim>\<open>"o"\<close> with
  \<^verbatim>\<open>max_frame_payload_bytes = 7\<close> and transfer identifier 32 the serializer emits
  exactly one frame, whose data are \<^verbatim>\<open>"Hello"\<close> with no padding (five bytes and the
  tail byte make a DLC-legal six), followed by the tail byte 0xE0: start of transfer, end
  of transfer and toggle set, transfer identifier bits 0. This is the first assertion of
  the unit test.
\<close>

theorem hello_single_frame:
  "run 0xbadc0fe 32 [[0x48, 0x65, 0x6C, 0x6C], [0x6F]] 7 False =
     Inr [\<lparr>df_identifier = 0xbadc0fe,
           df_data = [0x48, 0x65, 0x6C, 0x6C, 0x6F, 0xE0],
           df_format = EXTENDED, df_loopback = False\<rparr>]
   \<and> get_required_padding 5 = Some 0
   \<and> (0xE0 :: byte) = push_bit 7 1 OR push_bit 6 1 OR push_bit 5 1 OR 0"
  by (simp add: run_eval)

section \<open>The tail byte\<close>

text \<open>
  C9. Every emitted frame of every transfer compiles to its padded payload followed by
  one tail byte, whose value is \<open>SOT << 7 | EOT << 6 | toggle << 5 | (transfer_id mod 32)\<close>
  for the flags of the frame and the logical transfer identifier given to the serializer.
\<close>

theorem tail_byte:
  assumes "serialize_transfer cid tid frags m lb = Inr frames" and "f \<in> set frames"
  shows "\<exists>tail. df_data (compile f) = padded_payload f @ [tail]
     \<and> unat tail =
          push_bit 7 (of_bool (start_of_transfer f))
            OR push_bit 6 (of_bool (end_of_transfer f))
            OR push_bit 5 (of_bool (toggle_bit f))
            OR (tid mod 32)"
proof -
  from serialized_transfer_id [OF assms] have t: "transfer_id f = tid" .
  define tail where "tail = mkf_tail (tid mod 32)
                      (start_of_transfer f) (end_of_transfer f) (toggle_bit f)"
  have "tail < 256" unfolding tail_def by (rule mkf_tail_byte) simp
  then have "unat (of_nat tail :: byte) = tail"
    by (simp add: unat_of_nat)
  moreover have "df_data (compile f) = padded_payload f @ [of_nat tail]"
    by (simp add: compile_def tail_def t TRANSFER_ID_MODULO_def)
  ultimately show ?thesis
    unfolding tail_def mkf_tail_or by blast
qed

text \<open>
  Witness for C9: the logical transfer identifier 32 encodes as 0; the single frame has all
  three flags set, so its tail byte is 0xE0.
\<close>

theorem tail_byte_witness:
  "serialize_transfer 1 32 [[1, 2, 3]] 7 False =
     Inr [\<lparr>frame_identifier = 1, padded_payload = [1, 2, 3], transfer_id = 32,
           start_of_transfer = True, end_of_transfer = True, toggle_bit = True,
           loopback = False\<rparr>]
   \<and> (\<exists>tail. df_data (compile
          \<lparr>frame_identifier = 1, padded_payload = [1, 2, 3], transfer_id = 32,
           start_of_transfer = True, end_of_transfer = True, toggle_bit = True,
           loopback = False\<rparr>) = [1, 2, 3] @ [tail]
        \<and> unat tail = 224 \<and> (32::nat) mod 32 = 0)"
proof -
  let ?f = "\<lparr>frame_identifier = 1, padded_payload = [1, 2, 3], transfer_id = 32,
           start_of_transfer = True, end_of_transfer = True, toggle_bit = True,
           loopback = False\<rparr>"
  have e: "serialize_transfer 1 32 [[1, 2, 3]] 7 False = Inr [?f]"
    by (simp add: serialize_eval)
  have "?f \<in> set [?f]" by simp
  from tail_byte [OF e this] e show ?thesis
    by simp
qed

section \<open>The round trip through the reassembler\<close>

lemma complete_multi_frame_valid:
  "complete_multi_frame (body @ crc_bytes (crc_add CRC_INITIAL body)) = Delivered body"
  by (simp add: complete_multi_frame_def TRANSFER_CRC_LENGTH_BYTES_def)

lemma toggle_flip: "(\<not> (i mod 2 = 0)) = (Suc i mod 2 = (0::nat))"
  by presburger

lemma feed_accumulating:
  assumes "\<not> start_of_transfer f" "transfer_id f = tid" "toggle_bit f = expected"
  shows "feed (ACCUMULATING tid buffer expected) f =
     (if end_of_transfer f then (IDLE, complete_multi_frame (buffer @ padded_payload f))
      else (ACCUMULATING tid (buffer @ padded_payload f) (\<not> expected), NoOutcome))"
  using assms by (simp add: feed.simps)

lemma feed_continuation:
  assumes "0 < i"
  shows "feed (ACCUMULATING tid buffer (i mod 2 = 0)) (emit_frame cid tid lb (i, eot, c)) =
     (if eot then (IDLE, complete_multi_frame (buffer @ c))
      else (ACCUMULATING tid (buffer @ c) (Suc i mod 2 = 0), NoOutcome))"
proof -
  let ?f = "emit_frame cid tid lb (i, eot, c)"
  have "\<not> start_of_transfer ?f" "transfer_id ?f = tid" "toggle_bit ?f = (i mod 2 = 0)"
    using assms by (simp_all add: emit_frame_def)
  from feed_accumulating [OF this, of buffer]
  have "feed (ACCUMULATING tid buffer (i mod 2 = 0)) ?f =
     (if end_of_transfer ?f then (IDLE, complete_multi_frame (buffer @ padded_payload ?f))
      else (ACCUMULATING tid (buffer @ padded_payload ?f) (\<not> (i mod 2 = 0)), NoOutcome))" .
  moreover have "end_of_transfer ?f = eot" "padded_payload ?f = c"
    by (simp_all add: emit_frame_def)
  ultimately show ?thesis by (simp only: toggle_flip)
qed

lemma feed_all_continuation:
  assumes "cs \<noteq> []" "0 < i"
  shows "feed_all (ACCUMULATING tid buffer (i mod 2 = 0))
           (map (emit_frame cid tid lb) (enumerate i (mark_last cs))) =
         replicate (length cs - 1) NoOutcome @ [complete_multi_frame (buffer @ concat cs)]"
  using assms
proof (induction cs arbitrary: i buffer rule: mark_last.induct)
  case 1
  then show ?case by simp
next
  case (2 x)
  then show ?case by (simp add: feed_continuation)
next
  case (3 x y ys)
  from 3(3) have "0 < Suc i" by simp
  from 3(1) [OF _ this, of "buffer @ x"] 3(3) show ?case
    by (simp add: feed_continuation)
qed

lemma reassemble_multi_frame:
  assumes "2 \<le> length cs"
  shows "reassemble (map (emit_frame cid tid lb) (enumerate 0 (mark_last cs))) =
         replicate (length cs - 1) NoOutcome @ [complete_multi_frame (concat cs)]"
proof -
  from assms obtain c0 c1 rest where cs: "cs = c0 # c1 # rest"
    by (cases cs; cases "tl cs") auto
  have first: "feed IDLE (emit_frame cid tid lb (0, False, c0)) =
      (ACCUMULATING tid c0 (Suc 0 mod 2 = 0), NoOutcome)"
    by (simp add: feed.simps emit_frame_def)
  from feed_all_continuation [of "c1 # rest" "Suc 0" tid c0 cid lb]
  have "feed_all (ACCUMULATING tid c0 (Suc 0 mod 2 = 0))
           (map (emit_frame cid tid lb) (enumerate (Suc 0) (mark_last (c1 # rest)))) =
         replicate (length (c1 # rest) - 1) NoOutcome
           @ [complete_multi_frame (c0 @ concat (c1 # rest))]"
    by simp
  with first show ?thesis
    by (simp add: reassemble_def cs)
qed

lemma reassemble_single_frame:
  "reassemble [single_frame cid tid payload lb] = [Delivered payload]"
  by (simp add: reassemble_def feed.simps single_frame_def)

text \<open>Whatever frames the serializer emits, the reassembler delivers fragments and
  padding with the last frame and nothing before.\<close>

lemma reassemble_serialized:
  assumes "serialize_transfer cid tid frags m lb = Inr frames"
  shows "\<exists>k. reassemble frames =
           replicate (length frames - 1) NoOutcome
             @ [Delivered (concat frags @ replicate k PADDING_PATTERN)]"
proof (cases "int (sum_list (map length frags)) \<le> m")
  case True
  from single_frame_result [OF assms True] obtain k where
    "frames = [single_frame cid tid (concat frags @ replicate k PADDING_PATTERN) lb]"
    by blast
  then have "reassemble frames =
           replicate (length frames - 1) NoOutcome
             @ [Delivered (concat frags @ replicate k PADDING_PATTERN)]"
    by (simp add: reassemble_single_frame)
  then show ?thesis ..
next
  case False
  then have multi: "m < int (sum_list (map length frags))" by simp
  from assms have "1 \<le> m" by (rule serialize_transfer_Inr_valid)
  then have n: "0 < nat m" by simp
  from multi_frame_result [OF assms multi] obtain padding where
    p: "multi_frame_padding (sum_list (map length frags)) (nat m) = Some padding"
    and f: "frames = map (emit_frame cid tid lb)
       (enumerate 0 (mark_last (chunks (nat m)
          (concat frags @ padding
             @ crc_bytes (crc_add CRC_INITIAL (concat frags @ padding))))))"
    by blast
  from multi_frame_padding_Some [OF p] obtain k where
    k: "padding = replicate k PADDING_PATTERN" by blast
  define stream where
    "stream = concat frags @ padding @ crc_bytes (crc_add CRC_INITIAL (concat frags @ padding))"
  have "nat m < length (concat frags)" using multi \<open>1 \<le> m\<close> by (simp add: length_concat)
  with n have two: "2 \<le> length (chunks (nat m) stream)"
    unfolding stream_def by (rule multi_frame_at_least_two)
  have "complete_multi_frame (concat (chunks (nat m) stream)) = Delivered (concat frags @ padding)"
    unfolding concat_chunks [OF n] stream_def
    using complete_multi_frame_valid [of "concat frags @ padding"] by simp
  with reassemble_multi_frame [OF two, of cid tid lb] f k
  have "reassemble frames =
           replicate (length frames - 1) NoOutcome
             @ [Delivered (concat frags @ replicate k PADDING_PATTERN)]"
    by (simp add: stream_def)
  then show ?thesis ..
qed

text \<open>
  C1, as stated, fails: ten payload bytes with \<^verbatim>\<open>max_frame_payload_bytes = 10\<close>, which
  is at least 1, produce no frame sequence to feed to the reassembler. The serializer
  raises in the tuple unpacking of the single-frame path, because the padded payload of
  eleven bytes does not fit one chunk of ten.
\<close>

theorem round_trip_counterexample:
  "(1::int) \<le> 10
   \<and> round_trip 1 0 [[0, 1, 2, 3, 4], [5, 6, 7, 8, 9]] 10 False = Inl ValueError_unpack"
  by (simp add: round_trip_def serialize_eval)

text \<open>
  C1, amended. For every non-empty transfer (payload bytes split at arbitrary fragment
  boundaries) and every \<^verbatim>\<open>max_frame_payload_bytes >= 1\<close> such that
  \<^verbatim>\<open>max_frame_payload_bytes + 1\<close> is a DLC-legal frame length, feeding the frame
  sequence of the serializer, in order, into the reassembler of section 4.4 causes nothing
  until the last frame and delivers with the last frame a payload that is the
  concatenation of the input fragments followed only by padding bytes 0x55.
\<close>

theorem round_trip_delivers:
  assumes "1 \<le> m" and "dlc_legal (nat m + 1)" and "1 \<le> sum_list (map length frags)"
  shows "\<exists>k n. round_trip cid tid frags m lb =
           Inr (replicate n NoOutcome
                  @ [Delivered (concat frags @ replicate k PADDING_PATTERN)])"
proof -
  have "\<exists>frames. serialize_transfer cid tid frags m lb = Inr frames"
  proof (cases "int (sum_list (map length frags)) \<le> m")
    case True
    with assms single_frame_defined [of frags m cid tid lb] show ?thesis by auto
  next
    case False
    from assms(2) dlc_legal_le_64 [of "nat m + 1"] have "m \<le> 64" by simp
    with assms(1) False multi_frame_defined [of m frags cid tid lb] show ?thesis by simp
  qed
  then obtain frames where e: "serialize_transfer cid tid frags m lb = Inr frames" ..
  from reassemble_serialized [OF e] e show ?thesis
    by (auto simp: round_trip_def)
qed

text \<open>
  Witness for the amended C1: five bytes in two fragments with a capacity of 3 come back
  with the third frame, unpadded.
\<close>

theorem round_trip_delivers_witness:
  "(1::int) \<le> 3 \<and> dlc_legal (nat 3 + 1)
   \<and> 1 \<le> sum_list (map length [[1, 2, 3, 4], [5 :: byte]])
   \<and> round_trip 1 0 [[1, 2, 3, 4], [5]] 3 False =
        Inr [NoOutcome, NoOutcome, Delivered [1, 2, 3, 4, 5]]
   \<and> (\<exists>k n. round_trip 1 0 [[1, 2, 3, 4], [5]] 3 False =
           Inr (replicate n NoOutcome
                  @ [Delivered (concat [[1, 2, 3, 4], [5]] @ replicate k PADDING_PATTERN)]))"
proof -
  have h1: "(1::int) \<le> 3" by simp
  have h2: "dlc_legal (nat 3 + 1)" by (simp add: dlc_legal_def LENGTH_TO_DLC_def)
  have h3: "1 \<le> sum_list (map length [[1, 2, 3, 4], [5 :: byte]])" by simp
  have e: "round_trip 1 0 [[1, 2, 3, 4], [5]] 3 False =
        Inr [NoOutcome, NoOutcome, Delivered [1, 2, 3, 4, 5]]"
    by (simp add: round_trip_def reassemble_def feed.simps complete_multi_frame_def
        serialize_eval)
  from round_trip_delivers [OF h1 h2 h3, of 1 0 False] h1 h2 h3 e show ?thesis
    by simp
qed

section \<open>The empty payload, and compiled frames against the test helper\<close>

text \<open>
  The empty payload takes the single-frame path and needs no padding, as a frame of the
  tail byte alone is DLC-legal. The refragmenter then has nothing to cut and yields no
  chunk, so the tuple unpacking raises: no frame is emitted for an empty transfer,
  whatever the capacity.
\<close>

lemma empty_payload_raises:
  assumes "1 \<le> m" and "sum_list (map length frags) = 0"
  shows "serialize_transfer cid tid frags m lb = Inl ValueError_unpack"
proof -
  have "get_required_padding 0 = Some 0" by (simp add: padding_eval)
  with serialize_transfer_single [of m frags cid tid lb] assms show ?thesis by simp
qed

text \<open>
  What \<^verbatim>\<open>compile\<close> returns is what the test helper \<^verbatim>\<open>mkf\<close> builds from the fields of
  the frame and the transfer identifier reduced modulo 32; the reduced identifier never
  makes \<^verbatim>\<open>mkf\<close> fail.
\<close>

lemma compile_mkf:
  "mkf (frame_identifier f) (padded_payload f) (transfer_id f mod 32)
     (start_of_transfer f) (end_of_transfer f) (toggle_bit f) (loopback f) = Inr (compile f)"
proof -
  have "mkf_tail (transfer_id f mod 32) (start_of_transfer f) (end_of_transfer f)
          (toggle_bit f) < 256"
    by (rule mkf_tail_byte) simp
  then show ?thesis
    by (simp add: mkf_def compile_def TRANSFER_ID_MODULO_def Let_def)
qed

end
